theory Spec2Isabelle
  imports Complex_Main
begin

section \<open>Python values and built-ins used by the downloader\<close>

text \<open>
  The script \<^verbatim>\<open>donwload_un_ocha_opt.py\<close> works on decoded JSON documents and on Python
  strings. A Python \<^verbatim>\<open>str\<close> is modelled as a \<^typ>\<open>string\<close> whose characters
  are the code points below 256; strings with higher code points, and JSON numbers with a
  fraction or an exponent (Python floats), are outside the model. A JSON object is the list
  of the items of the decoded \<^verbatim>\<open>dict\<close>, in insertion order, with distinct keys.
  \<^verbatim>\<open>JNull\<close> is Python's \<^verbatim>\<open>None\<close>.
\<close>

datatype json =
    JNull
  | JBool bool
  | JInt int
  | JStr string
  | JArr "json list"
  | JObj "(string \<times> json) list"

text \<open>The exceptions the script can meet; only their kind is kept, since the
  script does nothing with an exception but print it.\<close>

datatype exn =
    ConnectionError
  | JSONDecodeError
  | TypeError
  | KeyError
  | AttributeError
  | EOFError
  | OSError

subsection \<open>Strings\<close>

text \<open>\<^verbatim>\<open>str.lower()\<close> on code points below 256: A-Z and the Latin-1 capitals
  0xC0-0xDE (without the multiplication sign 0xD7) move up by 32.\<close>

definition char_lower :: "char \<Rightarrow> char" where
  "char_lower c = (let n = of_char c :: nat in
     if (65 \<le> n \<and> n \<le> 90) \<or> (192 \<le> n \<and> n \<le> 222 \<and> n \<noteq> 215)
     then char_of (n + 32) else c)"

definition lower :: "string \<Rightarrow> string" where
  "lower s = map char_lower s"

text \<open>\<^verbatim>\<open>str.strip()\<close> removes leading and trailing white space
  (\<^verbatim>\<open>str.isspace\<close>): 0x09-0x0D, 0x1C-0x20, 0x85 and 0xA0 below 256.\<close>

definition is_space :: "char \<Rightarrow> bool" where
  "is_space c = (let n = of_char c :: nat in
     (9 \<le> n \<and> n \<le> 13) \<or> (28 \<le> n \<and> n \<le> 32) \<or> n = 133 \<or> n = 160)"

definition strip :: "string \<Rightarrow> string" where
  "strip s = rev (dropWhile is_space (rev (dropWhile is_space s)))"

text \<open>\<^verbatim>\<open>sub in s\<close> on strings: \<^verbatim>\<open>sub\<close> occurs in \<^verbatim>\<open>s\<close> as a
  contiguous block.\<close>

fun is_substring :: "string \<Rightarrow> string \<Rightarrow> bool" where
  "is_substring sub [] = (sub = [])"
| "is_substring sub (c # cs) = (take (length sub) (c # cs) = sub \<or> is_substring sub cs)"

text \<open>\<^verbatim>\<open>s.replace(old, new)\<close>: every occurrence of \<^verbatim>\<open>old\<close>, left to right
  and without overlap; an empty \<^verbatim>\<open>old\<close> matches before every character and at the
  end.\<close>

fun replace_from :: "string \<Rightarrow> string \<Rightarrow> string \<Rightarrow> string" where
  "replace_from old new [] = []"
| "replace_from old new (c # cs) =
     (if take (length old) (c # cs) = old
      then new @ replace_from old new (drop (length old - 1) cs)
      else c # replace_from old new cs)"

definition str_replace :: "string \<Rightarrow> string \<Rightarrow> string \<Rightarrow> string" where
  "str_replace old new s =
     (if old = [] then new @ concat (map (\<lambda>c. c # new) s) else replace_from old new s)"

text \<open>\<^verbatim>\<open>sep.join(parts)\<close>.\<close>

fun str_join :: "string \<Rightarrow> string list \<Rightarrow> string" where
  "str_join sep [] = []"
| "str_join sep [x] = x"
| "str_join sep (x # y # zs) = x @ sep @ str_join sep (y # zs)"

subsection \<open>Formatting values: \<^verbatim>\<open>str(x)\<close> and f-strings\<close>

definition digit_char :: "nat \<Rightarrow> char" where
  "digit_char n = ''0123456789abcdef'' ! n"

fun show_nat :: "nat \<Rightarrow> string" where
  "show_nat n =
     (if n < 10 then [digit_char n] else show_nat (n div 10) @ [digit_char (n mod 10)])"

declare show_nat.simps [simp del]

definition show_int :: "int \<Rightarrow> string" where
  "show_int i = (if i < 0 then CHR ''-'' # show_nat (nat (- i)) else show_nat (nat i))"

text \<open>\<^verbatim>\<open>repr\<close> of a string: double quotes when the string has a single quote and no
  double quote, single quotes otherwise; the quote and the backslash are escaped, tab,
  newline and carriage return are written \<^verbatim>\<open>\t \n \r\<close>, and a code point that is not
  printable (the controls, 0x7F-0xA0 and 0xAD) is written \<^verbatim>\<open>\xNN\<close>.\<close>

definition printable :: "char \<Rightarrow> bool" where
  "printable c = (let n = of_char c :: nat in
     32 \<le> n \<and> \<not> (127 \<le> n \<and> n \<le> 160) \<and> n \<noteq> 173)"

definition repr_char :: "char \<Rightarrow> char \<Rightarrow> string" where
  "repr_char quote c =
     (if c = quote \<or> c = CHR 0x5C then [CHR 0x5C, c]
      else if c = CHR 0x09 then [CHR 0x5C, CHR ''t'']
      else if c = CHR 0x0A then [CHR 0x5C, CHR ''n'']
      else if c = CHR 0x0D then [CHR 0x5C, CHR ''r'']
      else if printable c then [c]
      else [CHR 0x5C, CHR ''x'', digit_char (of_char c div 16), digit_char (of_char c mod 16)])"

definition repr_str :: "string \<Rightarrow> string" where
  "repr_str s =
     (let quote = (if CHR 0x27 \<in> set s \<and> CHR 0x22 \<notin> set s then CHR 0x22 else CHR 0x27)
      in quote # concat (map (repr_char quote) s) @ [quote])"

primrec py_repr :: "json \<Rightarrow> string" where
  "py_repr JNull = ''None''"
| "py_repr (JBool b) = (if b then ''True'' else ''False'')"
| "py_repr (JInt i) = show_int i"
| "py_repr (JStr s) = repr_str s"
| "py_repr (JArr xs) = ''['' @ str_join '', '' (map py_repr xs) @ '']''"
| "py_repr (JObj kvs) =
     ''{'' @ str_join '', '' (map (\<lambda>(k, r). repr_str k @ '': '' @ r) (map (map_prod id py_repr) kvs))
       @ ''}''"

definition py_str :: "json \<Rightarrow> string" where
  "py_str v = (case v of JStr s \<Rightarrow> s | _ \<Rightarrow> py_repr v)"

subsection \<open>Containers\<close>

text \<open>\<^verbatim>\<open>len(x)\<close>: defined on lists, strings and dicts.\<close>

definition py_len :: "json \<Rightarrow> exn + nat" where
  "py_len v = (case v of
       JArr xs \<Rightarrow> Inr (length xs)
     | JStr s \<Rightarrow> Inr (length s)
     | JObj kvs \<Rightarrow> Inr (length kvs)
     | _ \<Rightarrow> Inl TypeError)"

text \<open>Iteration (\<^verbatim>\<open>for x in v\<close>, \<^verbatim>\<open>list.extend(v)\<close>): the elements of a list,
  the characters of a string, the keys of a dict.\<close>

definition py_iter :: "json \<Rightarrow> exn + json list" where
  "py_iter v = (case v of
       JArr xs \<Rightarrow> Inr xs
     | JStr s \<Rightarrow> Inr (map (\<lambda>c. JStr [c]) s)
     | JObj kvs \<Rightarrow> Inr (map (\<lambda>kv. JStr (fst kv)) kvs)
     | _ \<Rightarrow> Inl TypeError)"

text \<open>\<^verbatim>\<open>v[i:j]\<close> with \<^verbatim>\<open>0 <= i <= j\<close>: lists and strings can be sliced. A dict
  cannot: the slice is unhashable (a TypeError, up to Python 3.11) or no key of it (a
  KeyError, from 3.12 on); the model has the former, and nothing depends on the kind.\<close>

definition py_slice :: "json \<Rightarrow> nat \<Rightarrow> nat \<Rightarrow> exn + json" where
  "py_slice v i j = (case v of
       JArr xs \<Rightarrow> Inr (JArr (take (j - i) (drop i xs)))
     | JStr s \<Rightarrow> Inr (JStr (take (j - i) (drop i s)))
     | _ \<Rightarrow> Inl TypeError)"

text \<open>\<^verbatim>\<open>d.get(key, default)\<close>: a method of dicts only.\<close>

definition dict_get :: "json \<Rightarrow> string \<Rightarrow> json \<Rightarrow> exn + json" where
  "dict_get d key dflt = (case d of
       JObj kvs \<Rightarrow> Inr (case map_of kvs key of Some v \<Rightarrow> v | None \<Rightarrow> dflt)
     | _ \<Rightarrow> Inl AttributeError)"

text \<open>\<^verbatim>\<open>key in v\<close> for a string \<^verbatim>\<open>key\<close>: a key of a dict, an element of a list,
  a substring of a string.\<close>

definition py_contains :: "string \<Rightarrow> json \<Rightarrow> exn + bool" where
  "py_contains key v = (case v of
       JObj kvs \<Rightarrow> Inr (key \<in> fst ` set kvs)
     | JArr xs \<Rightarrow> Inr (JStr key \<in> set xs)
     | JStr s \<Rightarrow> Inr (is_substring key s)
     | _ \<Rightarrow> Inl TypeError)"

text \<open>\<^verbatim>\<open>v[key]\<close> for a string \<^verbatim>\<open>key\<close>.\<close>

definition py_getitem :: "json \<Rightarrow> string \<Rightarrow> exn + json" where
  "py_getitem v key = (case v of
       JObj kvs \<Rightarrow> (case map_of kvs key of Some x \<Rightarrow> Inr x | None \<Rightarrow> Inl KeyError)
     | _ \<Rightarrow> Inl TypeError)"

text \<open>Truth value of a decoded JSON value.\<close>

definition truthy :: "json \<Rightarrow> bool" where
  "truthy v = (case v of
       JNull \<Rightarrow> False
     | JBool b \<Rightarrow> b
     | JInt i \<Rightarrow> i \<noteq> 0
     | JStr s \<Rightarrow> s \<noteq> []
     | JArr xs \<Rightarrow> xs \<noteq> []
     | JObj kvs \<Rightarrow> kvs \<noteq> [])"

section \<open>The world the script runs in\<close>

text \<open>
  An HTTP GET is a URL with its query parameters. The server is any function from the
  requests sent so far (the current one last) to what \<^verbatim>\<open>requests.get\<close> does: it
  raises, or it returns a response with a status code and a body that decodes as JSON or
  does not.
\<close>

type_synonym request = "string \<times> (string \<times> string) list"

datatype body = NotJson | Json json

datatype http_result = Raises exn | Response int body

datatype prompt = AskHuge | AskAnyway

text \<open>The second component of \<^verbatim>\<open>get_layer_ids\<close>' result.\<close>

datatype id_error = HttpError int | NoIdQuery | Caught exn

text \<open>The lines the script prints, one constructor for each \<^verbatim>\<open>print\<close>, with the
  values it interpolates. \<^verbatim>\<open>Prompt\<close> is the text \<^verbatim>\<open>input\<close> writes.
  \<^verbatim>\<open>Progress\<close> carries the two counts; the percentage printed with them is a
  floating-point function of the two.\<close>

datatype event =
    Banner
  | AutoNote
  | ConnectFailed exn
  | Checking string json
  | EmptyLayer
  | LargeLayer nat
  | Prompt prompt
  | Skipped
  | SizeOk nat
  | SizeUnknown "id_error option"
  | Downloading nat
  | Progress nat nat
  | BatchError nat exn
  | Newline
  | SimpleAttempt
  | Saved string
  | DownloadFail
  | ScanError string exn
  | AllDone

text \<open>
  The state a run works on: the server and the requests sent to it; standard input as
  its lines (\<^verbatim>\<open>None\<close> from the end of input on) and the number of lines read; the
  console; whether the download folder exists, and whether making it succeeds; the paths
  that can be opened for writing; the documents written, by path. The pauses between
  batches take time and change nothing here.
\<close>

record world =
  server :: "request list \<Rightarrow> http_result"
  sent :: "request list"
  stdin :: "nat \<Rightarrow> string option"
  pos :: nat
  out :: "event list"
  folder_exists :: bool
  mkdir_ok :: bool
  openable :: "string \<Rightarrow> bool"
  files :: "string \<rightharpoonup> json"

definition emit :: "event \<Rightarrow> world \<Rightarrow> world" where
  "emit e w = w\<lparr>out := out w @ [e]\<rparr>"

definition requests_get :: "request \<Rightarrow> world \<Rightarrow> http_result \<times> world" where
  "requests_get rq w = (server w (sent w @ [rq]), w\<lparr>sent := sent w @ [rq]\<rparr>)"

text \<open>\<^verbatim>\<open>r.json()\<close>.\<close>

definition resp_json :: "body \<Rightarrow> exn + json" where
  "resp_json b = (case b of NotJson \<Rightarrow> Inl JSONDecodeError | Json v \<Rightarrow> Inr v)"

section \<open>Configuration\<close>

definition CRS :: string where
  "CRS = ''4326''"

definition LARGE_LAYER_THRESHOLD :: nat where
  "LARGE_LAYER_THRESHOLD = 100000"

definition KEYWORDS :: "string list" where
  "KEYWORDS = [''Obstacle'', ''Barrier'', ''Checkpoint'', ''Road'', ''Palestine'',
     ''Gaza'', ''West Bank'', ''Crossing'', ''Fence'', ''Gate'']"

definition BASE_URL :: string where
  "BASE_URL = ''https://gis.unocha.org/server/rest/services/Hosted''"

definition DOWNLOAD_FOLDER :: string where
  "DOWNLOAD_FOLDER = ''downloads_qgis_ready''"

definition chunk_size :: nat where
  "chunk_size = 1000"

section \<open>\<^verbatim>\<open>download_in_chunks\<close>\<close>

text \<open>The request of one batch: the identifiers joined by commas.\<close>

definition chunk_request :: "string \<Rightarrow> json list \<Rightarrow> request" where
  "chunk_request layer_url chunk_ids =
     (layer_url @ ''/query'',
      [(''objectIds'', str_join '','' (map py_str chunk_ids)),
       (''outFields'', ''*''),
       (''f'', ''geojson''),
       (''outSR'', CRS)])"

text \<open>What the \<^verbatim>\<open>try\<close> block makes of the answer to a batch: an exception (which
  the \<^verbatim>\<open>except\<close> clause prints), nothing at all for a status other than 200, or the
  features to append.\<close>

definition batch_features :: "http_result \<Rightarrow> exn + json list option" where
  "batch_features r = (case r of
       Raises e \<Rightarrow> Inl e
     | Response status b \<Rightarrow>
         if status = 200 then
           (case resp_json b of
              Inl e \<Rightarrow> Inl e
            | Inr feat_data \<Rightarrow>
                (case dict_get feat_data ''features'' (JArr []) of
                   Inl e \<Rightarrow> Inl e
                 | Inr fs \<Rightarrow>
                     (case py_iter fs of Inl e \<Rightarrow> Inl e | Inr xs \<Rightarrow> Inr (Some xs))))
         else Inr None)"

text \<open>One round of the \<^verbatim>\<open>for\<close> loop, at offset \<^verbatim>\<open>i\<close>. Slicing stands outside the
  \<^verbatim>\<open>try\<close> block, so its exception leaves the function.\<close>

definition chunk_body ::
  "string \<Rightarrow> json \<Rightarrow> nat \<Rightarrow> nat \<Rightarrow> json list \<Rightarrow> world \<Rightarrow> exn + json list \<times> world" where
  "chunk_body layer_url all_ids total_count i all_features w =
     (case py_slice all_ids i (i + chunk_size) of
        Inl e \<Rightarrow> Inl e
      | Inr chunk \<Rightarrow>
          (case py_iter chunk of
             Inl e \<Rightarrow> Inl e
           | Inr chunk_ids \<Rightarrow>
               (case requests_get (chunk_request layer_url chunk_ids) w of
                  (r_chunk, w1) \<Rightarrow>
                    (case batch_features r_chunk of
                       Inl e \<Rightarrow> Inr (all_features, emit (BatchError i e) w1)
                     | Inr None \<Rightarrow> Inr (all_features, w1)
                     | Inr (Some fs) \<Rightarrow>
                         Inr (all_features @ fs,
                              emit (Progress (length (all_features @ fs)) total_count) w1)))))"

function chunk_loop ::
  "string \<Rightarrow> json \<Rightarrow> nat \<Rightarrow> nat \<Rightarrow> json list \<Rightarrow> world \<Rightarrow> (exn + json list) \<times> world" where
  "chunk_loop layer_url all_ids total_count i all_features w =
     (if i < total_count then
        (case chunk_body layer_url all_ids total_count i all_features w of
           Inl e \<Rightarrow> (Inl e, w)
         | Inr (all_features', w') \<Rightarrow>
             chunk_loop layer_url all_ids total_count (i + chunk_size) all_features' w')
      else (Inr all_features, w))"
  by pat_completeness auto
termination
  by (relation "measure (\<lambda>(u, a, t, i, f, w). t - i)") (auto simp: chunk_size_def)

declare chunk_loop.simps [simp del]

definition feature_collection :: "json list \<Rightarrow> json" where
  "feature_collection fs = JObj [(''type'', JStr ''FeatureCollection''), (''features'', JArr fs)]"

definition download_in_chunks ::
  "string \<Rightarrow> json \<Rightarrow> nat \<Rightarrow> world \<Rightarrow> (exn + json) \<times> world" where
  "download_in_chunks layer_url all_ids total_count w =
     (case chunk_loop layer_url all_ids total_count 0 [] (emit (Downloading total_count) w) of
        (Inl e, w') \<Rightarrow> (Inl e, w')
      | (Inr all_features, w') \<Rightarrow> (Inr (feature_collection all_features), emit Newline w'))"

section \<open>\<^verbatim>\<open>sanitize_filename\<close>\<close>

text \<open>The class \<^verbatim>\<open>\w\<close> of a Python 3 string pattern: the alphanumeric code points
  (\<^verbatim>\<open>str.isalnum\<close>) and the underscore. Below 256 these are the ASCII letters and
  digits, the Latin-1 letters (0xAA, 0xB5, 0xBA, 0xC0-0xFF without 0xD7 and 0xF7) and
  the numeric signs 0xB2, 0xB3, 0xB9, 0xBC-0xBE.\<close>

definition is_word_char :: "char \<Rightarrow> bool" where
  "is_word_char c = (let n = of_char c :: nat in
     (48 \<le> n \<and> n \<le> 57) \<or> (65 \<le> n \<and> n \<le> 90) \<or> n = 95 \<or> (97 \<le> n \<and> n \<le> 122)
     \<or> n = 170 \<or> n = 178 \<or> n = 179 \<or> n = 181 \<or> (185 \<le> n \<and> n \<le> 186)
     \<or> (188 \<le> n \<and> n \<le> 190) \<or> (192 \<le> n \<and> n \<le> 214) \<or> (216 \<le> n \<and> n \<le> 246)
     \<or> (248 \<le> n \<and> n \<le> 255))"

text \<open>The characters the pattern \<^verbatim>\<open>[^\w\-_\. ]\<close> leaves alone.\<close>

definition safe_char :: "char \<Rightarrow> bool" where
  "safe_char c = (is_word_char c \<or> c = CHR ''-'' \<or> c = CHR ''_'' \<or> c = CHR ''.'' \<or> c = CHR '' '')"

text \<open>\<^verbatim>\<open>re.sub\<close> raises a TypeError on a value that is no string.\<close>

definition sanitize_filename :: "json \<Rightarrow> exn + string" where
  "sanitize_filename name = (case name of
       JStr s \<Rightarrow> Inr (map (\<lambda>c. if safe_char c then c else CHR ''_'') s)
     | _ \<Rightarrow> Inl TypeError)"

section \<open>\<^verbatim>\<open>get_layer_ids\<close>\<close>

definition id_request :: "string \<Rightarrow> request" where
  "id_request layer_url =
     (layer_url @ ''/query'', [(''where'', ''1=1''), (''returnIdsOnly'', ''true''), (''f'', ''json'')])"

text \<open>The pair the function returns for an answer; every exception is caught.\<close>

definition layer_ids_of :: "http_result \<Rightarrow> json \<times> id_error option" where
  "layer_ids_of r = (case r of
       Raises e \<Rightarrow> (JNull, Some (Caught e))
     | Response status b \<Rightarrow>
         if status \<noteq> 200 then (JNull, Some (HttpError status))
         else
           (case resp_json b of
              Inl e \<Rightarrow> (JNull, Some (Caught e))
            | Inr data \<Rightarrow>
                (case py_contains ''objectIds'' data of
                   Inl e \<Rightarrow> (JNull, Some (Caught e))
                 | Inr True \<Rightarrow>
                     (case py_getitem data ''objectIds'' of
                        Inl e \<Rightarrow> (JNull, Some (Caught e))
                      | Inr v \<Rightarrow> (v, None))
                 | Inr False \<Rightarrow> (JNull, Some NoIdQuery))))"

definition get_layer_ids :: "string \<Rightarrow> world \<Rightarrow> (json \<times> id_error option) \<times> world" where
  "get_layer_ids layer_url w =
     (case requests_get (id_request layer_url) w of (r, w') \<Rightarrow> (layer_ids_of r, w'))"

section \<open>\<^verbatim>\<open>simple_download\<close>\<close>

definition simple_request :: "string \<Rightarrow> request" where
  "simple_request layer_url =
     (layer_url @ ''/query'',
      [(''where'', ''1=1''), (''outFields'', ''*''), (''f'', ''geojson''), (''outSR'', CRS)])"

text \<open>No \<^verbatim>\<open>try\<close> here: an exception leaves the function.\<close>

definition simple_download :: "string \<Rightarrow> world \<Rightarrow> (exn + json) \<times> world" where
  "simple_download layer_url w =
     (case requests_get (simple_request layer_url) (emit SimpleAttempt w) of
        (Raises e, w') \<Rightarrow> (Inl e, w')
      | (Response status b, w') \<Rightarrow>
          if status = 200 then (resp_json b, w') else (Inr JNull, w'))"

section \<open>\<^verbatim>\<open>main\<close>\<close>

subsection \<open>The confirmation prompt\<close>

text \<open>
  \<^verbatim>\<open>while True: choice = input(...).lower().strip(); if choice in ['y', 'n']: break\<close>.
  Standard input is a sequence of lines (without their line ends), \<^verbatim>\<open>None\<close> from the
  end of input on, where \<^verbatim>\<open>input\<close> raises EOFError. The loop need not end: an
  input that never holds an answer keeps it running, and the result is \<^verbatim>\<open>None\<close>.
\<close>

partial_function (option) ask :: "prompt \<Rightarrow> world \<Rightarrow> ((exn + string) \<times> world) option" where
  "ask p w =
     (case stdin w (pos w) of
        None \<Rightarrow> Some (Inl EOFError, emit (Prompt p) w)
      | Some line \<Rightarrow>
          if strip (lower line) = ''y'' \<or> strip (lower line) = ''n''
          then Some (Inr (strip (lower line)), (emit (Prompt p) w)\<lparr>pos := Suc (pos w)\<rparr>)
          else ask p ((emit (Prompt p) w)\<lparr>pos := Suc (pos w)\<rparr>))"

declare ask.simps [code]

subsection \<open>Step 4: check the size first\<close>

text \<open>The result is \<^verbatim>\<open>should_download\<close> and \<^verbatim>\<open>total_count\<close>. The
  \<^verbatim>\<open>continue\<close> of an empty layer is the result \<^verbatim>\<open>False\<close>: nothing follows either
  in the round of the loop.\<close>

definition size_check ::
  "json \<Rightarrow> id_error option \<Rightarrow> world \<Rightarrow> ((exn + bool \<times> nat) \<times> world) option" where
  "size_check ids error w =
     (if ids \<noteq> JNull then
        (case py_len ids of
           Inl e \<Rightarrow> Some (Inl e, w)
         | Inr total_count \<Rightarrow>
             if total_count = 0 then Some (Inr (False, 0), emit EmptyLayer w)
             else if total_count > LARGE_LAYER_THRESHOLD then
               (case ask AskHuge (emit (LargeLayer total_count) w) of
                  None \<Rightarrow> None
                | Some (Inl e, w') \<Rightarrow> Some (Inl e, w')
                | Some (Inr choice, w') \<Rightarrow>
                    if choice = ''y'' then Some (Inr (True, total_count), w')
                    else Some (Inr (False, total_count), emit Skipped w'))
             else Some (Inr (True, total_count), emit (SizeOk total_count) w))
      else
        (case ask AskAnyway (emit (SizeUnknown error) w) of
           None \<Rightarrow> None
         | Some (Inl e, w') \<Rightarrow> Some (Inl e, w')
         | Some (Inr choice, w') \<Rightarrow> Some (Inr (choice = ''y'', 0), w')))"

subsection \<open>Step 5: execute the download\<close>

text \<open>\<^verbatim>\<open>geojson_data and len(geojson_data.get('features', [])) > 0\<close>.\<close>

definition has_features :: "json \<Rightarrow> exn + bool" where
  "has_features geojson_data =
     (if truthy geojson_data then
        (case dict_get geojson_data ''features'' (JArr []) of
           Inl e \<Rightarrow> Inl e
         | Inr fs \<Rightarrow> (case py_len fs of Inl e \<Rightarrow> Inl e | Inr n \<Rightarrow> Inr (n > 0)))
      else Inr False)"

text \<open>The f-string of the file name.\<close>

definition layer_filename :: "string \<Rightarrow> json \<Rightarrow> json \<Rightarrow> exn + string" where
  "layer_filename clean_s_name l_id l_name =
     (case sanitize_filename l_name of
        Inl e \<Rightarrow> Inl e
      | Inr nm \<Rightarrow> Inr (clean_s_name @ ''___L'' @ py_str l_id @ ''_'' @ nm @ ''.geojson''))"

text \<open>\<^verbatim>\<open>os.path.join\<close> (POSIX) of two parts: an absolute second part stands alone.\<close>

definition path_join :: "string \<Rightarrow> string \<Rightarrow> string" where
  "path_join a b =
     (if b \<noteq> [] \<and> hd b = CHR ''/'' then b
      else if a = [] \<or> last a = CHR ''/'' then a @ b
      else a @ ''/'' @ b)"

text \<open>Opening a file for writing replaces its content; the content written is the
  document \<^verbatim>\<open>json.dump\<close> serialises.\<close>

definition save_layer :: "string \<Rightarrow> json \<Rightarrow> json \<Rightarrow> json \<Rightarrow> world \<Rightarrow> (exn + unit) \<times> world" where
  "save_layer clean_s_name l_id l_name geojson_data w =
     (case has_features geojson_data of
        Inl e \<Rightarrow> (Inl e, w)
      | Inr False \<Rightarrow> (Inr (), emit DownloadFail w)
      | Inr True \<Rightarrow>
          (case layer_filename clean_s_name l_id l_name of
             Inl e \<Rightarrow> (Inl e, w)
           | Inr filename \<Rightarrow>
               if openable w (path_join DOWNLOAD_FOLDER filename)
               then (Inr (),
                     emit (Saved (path_join DOWNLOAD_FOLDER filename))
                       (w\<lparr>files := (files w)(path_join DOWNLOAD_FOLDER filename \<mapsto> geojson_data)\<rparr>))
               else (Inl OSError, w)))"

definition execute_download ::
  "string \<Rightarrow> string \<Rightarrow> json \<Rightarrow> json \<Rightarrow> json \<Rightarrow> nat \<Rightarrow> world \<Rightarrow> (exn + unit) \<times> world" where
  "execute_download clean_s_name full_layer_url l_id l_name ids total_count w =
     (case (if truthy ids then download_in_chunks full_layer_url ids total_count w
            else simple_download full_layer_url w) of
        (Inl e, w') \<Rightarrow> (Inl e, w')
      | (Inr geojson_data, w') \<Rightarrow> save_layer clean_s_name l_id l_name geojson_data w')"

subsection \<open>One layer\<close>

text \<open>A round of the loop over the layers; \<^verbatim>\<open>Inl\<close> is an exception on its way to
  the \<^verbatim>\<open>except\<close> clause of the service.\<close>

definition layer_body :: "string \<Rightarrow> string \<Rightarrow> json \<Rightarrow> world \<Rightarrow> ((exn + unit) \<times> world) option" where
  "layer_body clean_s_name service_url layer w =
     (case py_getitem layer ''name'' of
        Inl e \<Rightarrow> Some (Inl e, w)
      | Inr l_name \<Rightarrow>
          (case py_getitem layer ''id'' of
             Inl e \<Rightarrow> Some (Inl e, w)
           | Inr l_id \<Rightarrow>
               (case get_layer_ids (service_url @ ''/'' @ py_str l_id)
                       (emit (Checking clean_s_name l_name) w) of
                  ((ids, error), w1) \<Rightarrow>
                    (case size_check ids error w1 of
                       None \<Rightarrow> None
                     | Some (Inl e, w2) \<Rightarrow> Some (Inl e, w2)
                     | Some (Inr (should_download, total_count), w2) \<Rightarrow>
                         if should_download
                         then Some (execute_download clean_s_name (service_url @ ''/'' @ py_str l_id)
                                      l_id l_name ids total_count w2)
                         else Some (Inr (), w2)))))"

fun layers_loop :: "string \<Rightarrow> string \<Rightarrow> json list \<Rightarrow> world \<Rightarrow> ((exn + unit) \<times> world) option" where
  "layers_loop clean_s_name service_url [] w = Some (Inr (), w)"
| "layers_loop clean_s_name service_url (layer # layers) w =
     (case layer_body clean_s_name service_url layer w of
        None \<Rightarrow> None
      | Some (Inl e, w') \<Rightarrow> Some (Inl e, w')
      | Some (Inr u, w') \<Rightarrow> layers_loop clean_s_name service_url layers w')"

subsection \<open>One service\<close>

text \<open>The two filters of a round of the loop over the services.\<close>

definition keyword_match :: "string \<Rightarrow> bool" where
  "keyword_match s_name = list_ex (\<lambda>k. is_substring (lower k) (lower s_name)) KEYWORDS"

definition service_url_of :: "string \<Rightarrow> string" where
  "service_url_of s_name = ''https://gis.unocha.org/server/rest/services/'' @ s_name @ ''/FeatureServer''"

text \<open>The layers to visit, from the answer to the request for the service:
  \<^verbatim>\<open>None\<close> when the document has no \<^verbatim>\<open>layers\<close>.\<close>

definition layer_list :: "http_result \<Rightarrow> exn + json list option" where
  "layer_list r = (case r of
       Raises e \<Rightarrow> Inl e
     | Response status b \<Rightarrow>
         (case resp_json b of
            Inl e \<Rightarrow> Inl e
          | Inr l_data \<Rightarrow>
              (case py_contains ''layers'' l_data of
                 Inl e \<Rightarrow> Inl e
               | Inr False \<Rightarrow> Inr None
               | Inr True \<Rightarrow>
                   (case py_getitem l_data ''layers'' of
                      Inl e \<Rightarrow> Inl e
                    | Inr ls \<Rightarrow> (case py_iter ls of Inl e \<Rightarrow> Inl e | Inr layers \<Rightarrow> Inr (Some layers))))))"

text \<open>The \<^verbatim>\<open>try\<close> block of a service with its \<^verbatim>\<open>except\<close> clause.\<close>

definition scan_service :: "string \<Rightarrow> world \<Rightarrow> world option" where
  "scan_service s_name w =
     (case requests_get (service_url_of s_name, [(''f'', ''json'')]) w of
        (r, w1) \<Rightarrow>
          (case layer_list r of
             Inl e \<Rightarrow> Some (emit (ScanError s_name e) w1)
           | Inr None \<Rightarrow> Some w1
           | Inr (Some layers) \<Rightarrow>
               (case layers_loop (str_replace ''Hosted/'' [] s_name) (service_url_of s_name) layers w1 of
                  None \<Rightarrow> None
                | Some (Inl e, w2) \<Rightarrow> Some (emit (ScanError s_name e) w2)
                | Some (Inr u, w2) \<Rightarrow> Some w2)))"

text \<open>A round of the loop over the services; \<^verbatim>\<open>Inl\<close> is an exception nothing
  catches. A name that is no string has no \<^verbatim>\<open>lower\<close>.\<close>

definition service_body :: "json \<Rightarrow> world \<Rightarrow> ((exn + unit) \<times> world) option" where
  "service_body service w =
     (case py_getitem service ''name'' of
        Inl e \<Rightarrow> Some (Inl e, w)
      | Inr name \<Rightarrow>
          (case py_getitem service ''type'' of
             Inl e \<Rightarrow> Some (Inl e, w)
           | Inr s_type \<Rightarrow>
               (case name of
                  JStr s_name \<Rightarrow>
                    if \<not> keyword_match s_name then Some (Inr (), w)
                    else if s_type \<noteq> JStr ''FeatureServer'' then Some (Inr (), w)
                    else (case scan_service s_name w of None \<Rightarrow> None | Some w' \<Rightarrow> Some (Inr (), w'))
                | _ \<Rightarrow> Some (Inl AttributeError, w))))"

fun services_loop :: "json list \<Rightarrow> world \<Rightarrow> ((exn + unit) \<times> world) option" where
  "services_loop [] w = Some (Inr (), w)"
| "services_loop (service # services) w =
     (case service_body service w of
        None \<Rightarrow> None
      | Some (Inl e, w') \<Rightarrow> Some (Inl e, w')
      | Some (Inr u, w') \<Rightarrow> services_loop services w')"

subsection \<open>The run\<close>

text \<open>How a run ends: \<^verbatim>\<open>main\<close> returns, or an exception nothing catches ends the
  process.\<close>

datatype outcome = Returned | Uncaught exn

text \<open>The \<^verbatim>\<open>try\<close> block of step 1.\<close>

definition catalog_services :: "http_result \<Rightarrow> exn + json" where
  "catalog_services r = (case r of
       Raises e \<Rightarrow> Inl e
     | Response status b \<Rightarrow>
         (case resp_json b of
            Inl e \<Rightarrow> Inl e
          | Inr catalog \<Rightarrow> dict_get catalog ''services'' (JArr [])))"

definition catalog_request :: request where
  "catalog_request = (BASE_URL, [(''f'', ''json'')])"

text \<open>Steps 1 and 2 and the last line: the catalog, the loop over the services,
  \<^verbatim>\<open>All done!\<close>. Nothing catches an exception of the loop header or of the first
  lines of a round.\<close>

definition scan_catalog :: "world \<Rightarrow> (outcome \<times> world) option" where
  "scan_catalog w =
     (case requests_get catalog_request w of
        (r, w1) \<Rightarrow>
          (case catalog_services r of
             Inl e \<Rightarrow> Some (Returned, emit (ConnectFailed e) w1)
           | Inr services \<Rightarrow>
               (case py_iter services of
                  Inl e \<Rightarrow> Some (Uncaught e, w1)
                | Inr svcs \<Rightarrow>
                    (case services_loop svcs w1 of
                       None \<Rightarrow> None
                     | Some (Inl e, w2) \<Rightarrow> Some (Uncaught e, w2)
                     | Some (Inr u, w2) \<Rightarrow> Some (Returned, emit AllDone w2)))))"

text \<open>The download folder is made when it is missing (which can fail), the two header
  lines are printed, and the scan runs.\<close>

definition main :: "world \<Rightarrow> (outcome \<times> world) option" where
  "main w =
     (if \<not> folder_exists w \<and> \<not> mkdir_ok w then Some (Uncaught OSError, w)
      else scan_catalog (emit AutoNote (emit Banner (w\<lparr>folder_exists := True\<rparr>))))"

section \<open>Vocabulary of the properties\<close>

text \<open>The answers of the server to the requests \<^verbatim>\<open>rs\<close>, sent one after another
  once \<^verbatim>\<open>hist\<close> has been sent.\<close>

fun responses :: "(request list \<Rightarrow> http_result) \<Rightarrow> request list \<Rightarrow> request list \<Rightarrow> http_result list" where
  "responses srv hist [] = []"
| "responses srv hist (r # rs) = srv (hist @ [r]) # responses srv (hist @ [r]) rs"

text \<open>The features an answer to a batch adds to the result: none when the batch
  failed.\<close>

definition returned :: "http_result \<Rightarrow> json list" where
  "returned r = (case batch_features r of Inr (Some xs) \<Rightarrow> xs | _ \<Rightarrow> [])"

text \<open>The offsets \<^verbatim>\<open>range(i, total_count, chunk_size)\<close> runs through, the window
  of identifiers at an offset, the windows of a list of identifiers, and the batch
  requests made of them.\<close>

function offsets :: "nat \<Rightarrow> nat \<Rightarrow> nat list" where
  "offsets tc i = (if i < tc then i # offsets tc (i + chunk_size) else [])"
  by pat_completeness auto
termination
  by (relation "measure (\<lambda>(t, i). t - i)") (auto simp: chunk_size_def)

declare offsets.simps [simp del]

definition window :: "json list \<Rightarrow> nat \<Rightarrow> json list" where
  "window ids i = take chunk_size (drop i ids)"

definition id_windows :: "json list \<Rightarrow> json list list" where
  "id_windows ids =
     map (\<lambda>j. take chunk_size (drop (j * chunk_size) ids)) [0..<(length ids + 999) div 1000]"

definition chunk_requests :: "string \<Rightarrow> json list \<Rightarrow> request list" where
  "chunk_requests layer_url ids = map (chunk_request layer_url) (id_windows ids)"

text \<open>A fresh start on a server, with the given lines on standard input: nothing sent
  or printed, no download folder yet, every file can be written.\<close>

definition initial_world :: "(request list \<Rightarrow> http_result) \<Rightarrow> string list \<Rightarrow> world" where
  "initial_world srv lines =
     \<lparr>server = srv, sent = [], stdin = (\<lambda>k. if k < length lines then Some (lines ! k) else None),
      pos = 0, out = [], folder_exists = False, mkdir_ok = True, openable = (\<lambda>p. True),
      files = Map.empty\<rparr>"

text \<open>The scenario of the specification: the service \<^verbatim>\<open>Hosted/Gaza_Checkpoints\<close>
  with the layer 0, \<^verbatim>\<open>Checkpoints\<close>, of the object IDs 1, 2, 3, one feature for
  each.\<close>

definition feature :: "int \<Rightarrow> json" where
  "feature i = JObj [(''type'', JStr ''Feature''), (''id'', JInt i)]"

text \<open>A server with one feature service of one layer (number 0), which answers the
  identifier query and the data queries of the layer as given.\<close>

definition one_layer_server ::
  "string \<Rightarrow> string \<Rightarrow> http_result \<Rightarrow> http_result \<Rightarrow> request list \<Rightarrow> http_result" where
  "one_layer_server s_name l_name id_answer data_answer h = (case last h of (u, ps) \<Rightarrow>
     if u = BASE_URL then
       Response 200 (Json (JObj [(''services'',
         JArr [JObj [(''name'', JStr s_name), (''type'', JStr ''FeatureServer'')]])]))
     else if map_of ps ''returnIdsOnly'' = Some ''true'' then id_answer
     else if map_of ps ''outFields'' = Some ''*'' then data_answer
     else
       Response 200 (Json (JObj [(''layers'',
         JArr [JObj [(''id'', JInt 0), (''name'', JStr l_name)]])])))"

definition ids_answer :: "json list \<Rightarrow> http_result" where
  "ids_answer ids = Response 200 (Json (JObj [(''objectIds'', JArr ids)]))"

definition features_answer :: "json list \<Rightarrow> http_result" where
  "features_answer fs = Response 200 (Json (feature_collection fs))"

definition scenario_ids :: "json list" where
  "scenario_ids = [JInt 1, JInt 2, JInt 3]"

definition scenario_server :: "request list \<Rightarrow> http_result" where
  "scenario_server =
     one_layer_server ''Hosted/Gaza_Checkpoints'' ''Checkpoints'' (ids_answer scenario_ids)
       (features_answer [feature 1, feature 2, feature 3])"

definition scenario_layer_url :: string where
  "scenario_layer_url = ''https://gis.unocha.org/server/rest/services/Hosted/Gaza_Checkpoints/FeatureServer/0''"

text \<open>A line the prompt accepts, and the world after \<open>k\<close> lines were read at a
  prompt.\<close>

definition is_answer :: "string \<Rightarrow> bool" where
  "is_answer line = (strip (lower line) = ''y'' \<or> strip (lower line) = ''n'')"

definition prompted :: "prompt \<Rightarrow> nat \<Rightarrow> world \<Rightarrow> world" where
  "prompted p k w = w\<lparr>out := out w @ replicate k (Prompt p), pos := pos w + k\<rparr>"

text \<open>What a prompt that returns has done: it read some lines that are no answers, then
  met the end of input or an answer.\<close>

definition ask_result :: "prompt \<Rightarrow> world \<Rightarrow> (exn + string) \<times> world \<Rightarrow> bool" where
  "ask_result p w y =
     (\<exists>k. (\<forall>j<k. \<exists>line. stdin w (pos w + j) = Some line \<and> \<not> is_answer line)
     \<and> ((stdin w (pos w + k) = None \<and> y = (Inl EOFError, emit (Prompt p) (prompted p k w)))
       \<or> (\<exists>a. stdin w (pos w + k) = Some a \<and> is_answer a
             \<and> y = (Inr (strip (lower a)), prompted p (Suc k) w))))"

text \<open>A layer of 100001 object IDs on the server of the scenario.\<close>

definition huge_ids :: "json list" where
  "huge_ids = replicate 100001 (JInt 1)"

definition scenario_layer :: json where
  "scenario_layer = JObj [(''id'', JInt 0), (''name'', JStr ''Checkpoints'')]"

definition scenario_service_url :: string where
  "scenario_service_url = ''https://gis.unocha.org/server/rest/services/Hosted/Gaza_Checkpoints/FeatureServer''"

definition huge_server :: "request list \<Rightarrow> http_result" where
  "huge_server = one_layer_server ''Hosted/Gaza_Checkpoints'' ''Checkpoints'' (ids_answer huge_ids)
     (features_answer [])"

text \<open>What a run reads of the world is left by \<^verbatim>\<open>erase\<close>; \<^verbatim>\<open>merge w e\<close> puts what
  the world \<^verbatim>\<open>e\<close> holds of output behind the output of \<^verbatim>\<open>w\<close>.\<close>

definition erase :: "world \<Rightarrow> world" where
  "erase w = w\<lparr>out := [], folder_exists := True, mkdir_ok := True, files := Map.empty\<rparr>"

definition merge :: "world \<Rightarrow> world \<Rightarrow> world" where
  "merge w e = e\<lparr>out := out w @ out e, folder_exists := folder_exists w, mkdir_ok := mkdir_ok w,
     files := files w ++ files e\<rparr>"

text \<open>The file of the scenario.\<close>

definition scenario_path :: string where
  "scenario_path = ''downloads_qgis_ready/Gaza_Checkpoints___L0_Checkpoints.geojson''"

text \<open>Standard input lets every prompt end: from every line on, the end of input or an
  answer comes.\<close>

definition answers_eventually :: "world \<Rightarrow> bool" where
  "answers_eventually w =
     (\<forall>k. \<exists>j\<ge>k. case stdin w j of None \<Rightarrow> True | Some line \<Rightarrow> is_answer line)"

text \<open>An entry of the catalog that the first lines of a round can read: an object with a
  string \<^verbatim>\<open>name\<close> and a \<^verbatim>\<open>type\<close>.\<close>

definition service_entry :: "json \<Rightarrow> bool" where
  "service_entry s =
     (\<exists>s_name s_type. py_getitem s ''name'' = Inr (JStr s_name) \<and> py_getitem s ''type'' = Inr s_type)"

text \<open>A keyword occurs in a name without regard to case: a block of the name agrees
  with the keyword letter by letter once both are lowered.\<close>

definition occurs_ignoring_case :: "string \<Rightarrow> string \<Rightarrow> bool" where
  "occurs_ignoring_case k s =
     (\<exists>pre mid post. s = pre @ mid @ post \<and> list_all2 (\<lambda>a b. char_lower a = char_lower b) mid k)"

text \<open>An entry of the catalog.\<close>

definition catalog_entry :: "string \<Rightarrow> string \<Rightarrow> json" where
  "catalog_entry s_name s_type = JObj [(''name'', JStr s_name), (''type'', JStr s_type)]"



text \<open>The server of the scenario behind a catalog of the given entries.\<close>

definition catalog_server :: "json list \<Rightarrow> request list \<Rightarrow> http_result" where
  "catalog_server services h =
     (if fst (last h) = BASE_URL then Response 200 (Json (JObj [(''services'', JArr services)]))
      else scenario_server h)"

text \<open>A server whose one feature service lists a layer that has no name.\<close>

definition nameless_layer_server :: "request list \<Rightarrow> http_result" where
  "nameless_layer_server h =
     (if fst (last h) = BASE_URL
      then Response 200 (Json (JObj [(''services'',
             JArr [catalog_entry ''Hosted/Gaza_Checkpoints'' ''FeatureServer''])]))
      else Response 200 (Json (JObj [(''layers'', JArr [JObj [(''id'', JInt 0)]])])))"

text \<open>The two filters, on the name and the type of an entry.\<close>

definition wanted :: "string \<times> string \<Rightarrow> bool" where
  "wanted nt = ((\<exists>k\<in>set KEYWORDS. occurs_ignoring_case k (fst nt)) \<and> snd nt = ''FeatureServer'')"

section \<open>Properties of the chunked download\<close>

lemma chunk_body_list:
  "\<exists>evs. chunk_body url (JArr ids) tc i acc w =
     Inr (acc @ returned (server w (sent w @ [chunk_request url (window ids i)])),
          w\<lparr>sent := sent w @ [chunk_request url (window ids i)], out := out w @ evs\<rparr>)
     \<and> (\<forall>p. Prompt p \<notin> set evs)"
proof (cases "batch_features (server w (sent w @ [chunk_request url (window ids i)]))")
  case (Inl e)
  then show ?thesis
    by (intro exI[of _ "[BatchError i e]"])
       (simp add: chunk_body_def py_slice_def py_iter_def requests_get_def returned_def window_def emit_def)
next
  case (Inr ob)
  show ?thesis
  proof (cases ob)
    case None
    with Inr show ?thesis
      by (intro exI[of _ "[]"])
         (simp add: chunk_body_def py_slice_def py_iter_def requests_get_def returned_def window_def emit_def)
  next
    case (Some fs)
    with Inr show ?thesis
      by (intro exI[of _ "[Progress (length (acc @ fs)) tc]"])
         (simp add: chunk_body_def py_slice_def py_iter_def requests_get_def returned_def window_def emit_def)
  qed
qed

lemma chunk_loop_list:
  "\<exists>evs. chunk_loop url (JArr ids) tc i acc w =
     (Inr (acc @ concat (map returned
        (responses (server w) (sent w) (map (\<lambda>k. chunk_request url (window ids k)) (offsets tc i))))),
      w\<lparr>sent := sent w @ map (\<lambda>k. chunk_request url (window ids k)) (offsets tc i),
        out := out w @ evs\<rparr>)
     \<and> (\<forall>p. Prompt p \<notin> set evs)"
proof (induction url "JArr ids" tc i acc w rule: chunk_loop.induct)
  case (1 url tc i acc w)
  show ?case
  proof (cases "i < tc")
    case False
    then show ?thesis
      by (intro exI[of _ "[]"]) (simp add: chunk_loop.simps offsets.simps)
  next
    case True
    let ?rq = "chunk_request url (window ids i)"
    obtain evs where b: "chunk_body url (JArr ids) tc i acc w =
       Inr (acc @ returned (server w (sent w @ [?rq])), w\<lparr>sent := sent w @ [?rq], out := out w @ evs\<rparr>)"
      and np: "\<forall>p. Prompt p \<notin> set evs"
      using chunk_body_list by blast
    from "1.hyps"[OF True b refl] obtain evs' where
      l: "chunk_loop url (JArr ids) tc (i + chunk_size) (acc @ returned (server w (sent w @ [?rq])))
            (w\<lparr>sent := sent w @ [?rq], out := out w @ evs\<rparr>) =
          (Inr ((acc @ returned (server w (sent w @ [?rq]))) @ concat (map returned
             (responses (server w) (sent w @ [?rq])
                (map (\<lambda>k. chunk_request url (window ids k)) (offsets tc (i + chunk_size)))))),
           w\<lparr>sent := (sent w @ [?rq]) @ map (\<lambda>k. chunk_request url (window ids k)) (offsets tc (i + chunk_size)),
             out := (out w @ evs) @ evs'\<rparr>)"
      and np': "\<forall>p. Prompt p \<notin> set evs'"
      by auto
    have o: "offsets tc i = i # offsets tc (i + chunk_size)"
      using True by (subst offsets.simps) simp
    have "chunk_loop url (JArr ids) tc i acc w =
     (Inr (acc @ concat (map returned
        (responses (server w) (sent w) (map (\<lambda>k. chunk_request url (window ids k)) (offsets tc i))))),
      w\<lparr>sent := sent w @ map (\<lambda>k. chunk_request url (window ids k)) (offsets tc i),
        out := out w @ (evs @ evs')\<rparr>)
     \<and> (\<forall>p. Prompt p \<notin> set (evs @ evs'))"
      using np np' by (simp add: chunk_loop.simps[of url "JArr ids" tc i] True b l o)
    then show ?thesis by blast
  qed
qed

lemma offsets_mult:
  "offsets tc (k * chunk_size) = map (\<lambda>j. j * chunk_size) [k..<(tc + 999) div 1000]"
proof (induction tc "k * chunk_size" arbitrary: k rule: offsets.induct)
  case (1 tc)
  show ?case
  proof (cases "k * chunk_size < tc")
    case True
    then have "k < (tc + 999) div 1000" unfolding chunk_size_def by arith
    then have u: "[k..<(tc + 999) div 1000] = k # [Suc k..<(tc + 999) div 1000]"
      by (simp add: upt_conv_Cons)
    have "offsets tc (Suc k * chunk_size) = map (\<lambda>j. j * chunk_size) [Suc k..<(tc + 999) div 1000]"
      using "1.hyps"[OF True, of "Suc k"] by (simp add: add.commute)
    then show ?thesis
      using True u by (subst offsets.simps) (simp add: add.commute)
  next
    case False
    then have "\<not> k < (tc + 999) div 1000" unfolding chunk_size_def by arith
    then show ?thesis using False by (subst offsets.simps) simp
  qed
qed

lemma chunk_requests_offsets:
  "map (\<lambda>k. chunk_request url (window ids k)) (offsets (length ids) 0) = chunk_requests url ids"
  using offsets_mult[of "length ids" 0]
  by (simp add: chunk_requests_def id_windows_def window_def comp_def)



lemma download_in_chunks_list:
  "\<exists>evs. download_in_chunks url (JArr ids) (length ids) w =
     (Inr (feature_collection (concat (map returned
        (responses (server w) (sent w) (chunk_requests url ids))))),
      w\<lparr>sent := sent w @ chunk_requests url ids, out := out w @ evs\<rparr>)
     \<and> (\<forall>p. Prompt p \<notin> set evs)"
proof -
  let ?w = "emit (Downloading (length ids)) w"
  obtain evs where l: "chunk_loop url (JArr ids) (length ids) 0 [] ?w =
     (Inr ([] @ concat (map returned
        (responses (server ?w) (sent ?w) (map (\<lambda>k. chunk_request url (window ids k)) (offsets (length ids) 0))))),
      ?w\<lparr>sent := sent ?w @ map (\<lambda>k. chunk_request url (window ids k)) (offsets (length ids) 0),
        out := out ?w @ evs\<rparr>)" and np: "\<forall>p. Prompt p \<notin> set evs"
    using chunk_loop_list by blast
  have "download_in_chunks url (JArr ids) (length ids) w =
     (Inr (feature_collection (concat (map returned
        (responses (server w) (sent w) (chunk_requests url ids))))),
      w\<lparr>sent := sent w @ chunk_requests url ids, out := out w @ (Downloading (length ids) # evs @ [Newline])\<rparr>)
     \<and> (\<forall>p. Prompt p \<notin> set (Downloading (length ids) # evs @ [Newline]))"
    using np by (simp add: download_in_chunks_def l chunk_requests_offsets) (simp add: emit_def)
  then show ?thesis by blast
qed


lemmas eval_simps = chunk_requests_def id_windows_def chunk_request_def chunk_size_def py_str_def
  show_int_def show_nat.simps digit_char_def initial_world_def scenario_server_def CRS_def
  returned_def batch_features_def resp_json_def dict_get_def py_iter_def feature_collection_def
  feature_def scenario_layer_url_def BASE_URL_def scenario_ids_def
  one_layer_server_def ids_answer_def features_answer_def




lemmas run_simps = eval_simps main_def scan_catalog_def requests_get_def emit_def catalog_request_def catalog_services_def
     service_body_def py_getitem_def keyword_match_def KEYWORDS_def lower_def char_lower_def char_of_def bit_Suc_0_iff
     scan_service_def layer_list_def py_contains_def service_url_of_def str_replace_def layer_body_def
     get_layer_ids_def id_request_def layer_ids_of_def size_check_def py_len_def LARGE_LAYER_THRESHOLD_def
     execute_download_def truthy_def download_in_chunks_def chunk_loop.simps chunk_body_def py_slice_def
     save_layer_def has_features_def layer_filename_def sanitize_filename_def safe_char_def is_word_char_def
     path_join_def DOWNLOAD_FOLDER_def simple_download_def simple_request_def strip_def is_space_def




text \<open>
  Claim C6. A batch whose request raises is reported with its offset, and the loop goes
  on. A batch answered with a status other than 200 leaves no line at all: the
  \<^verbatim>\<open>if\<close> on the status code has no \<^verbatim>\<open>else\<close>. Here a layer of one identifier, on a
  server that answers every request with status 500, and on one where every request raises.
\<close>

theorem C6_status_failure_is_silent:
  "out (snd (download_in_chunks scenario_layer_url (JArr [JInt 1]) 1
        (initial_world (\<lambda>h. Response 500 NotJson) []))) = [Downloading 1, Newline]
   \<and> out (snd (download_in_chunks scenario_layer_url (JArr [JInt 1]) 1
        (initial_world (\<lambda>h. Raises ConnectionError) []))) =
       [Downloading 1, BatchError 0 ConnectionError, Newline]"
  by (simp add: run_simps)

section \<open>File names\<close>

text \<open>
  Claim C4. Only the layer name goes through \<^verbatim>\<open>sanitize_filename\<close>; the service name
  loses \<^verbatim>\<open>Hosted/\<close> and is used as it is. For the service \<^verbatim>\<open>Hosted/Gaza:Roads\<close>
  with the layer 0 named \<^verbatim>\<open>Main/Roads\<close> the file name keeps the colon, which is outside
  the safe set, and the run saves the layer under that name.
\<close>

theorem C4_service_name_not_sanitised:
  "layer_filename (str_replace ''Hosted/'' [] ''Hosted/Gaza:Roads'') (JInt 0) (JStr ''Main/Roads'') =
     Inr ''Gaza:Roads___L0_Main_Roads.geojson''
   \<and> \<not> list_all safe_char ''Gaza:Roads___L0_Main_Roads.geojson''
   \<and> map_option (\<lambda>(r, w). (r, out w))
       (main (initial_world (one_layer_server ''Hosted/Gaza:Roads'' ''Main/Roads''
          (ids_answer [JInt 1]) (features_answer [feature 1])) [])) =
     Some (Returned, [Banner, AutoNote, Checking ''Gaza:Roads'' (JStr ''Main/Roads''), SizeOk 1,
       Downloading 1, Progress 1 1, Newline,
       Saved ''downloads_qgis_ready/Gaza:Roads___L0_Main_Roads.geojson'', AllDone])"
  by (simp add: run_simps)

section \<open>The confirmation prompt and the size check\<close>

lemma ask_answer:
  "stdin w (pos w) = Some line \<Longrightarrow> is_answer line \<Longrightarrow>
   ask p w = Some (Inr (strip (lower line)), prompted p 1 w)"
  by (subst ask.simps) (auto simp: is_answer_def prompted_def emit_def)

lemma ask_retry:
  "stdin w (pos w) = Some line \<Longrightarrow> \<not> is_answer line \<Longrightarrow> ask p w = ask p (prompted p 1 w)"
  by (subst ask.simps) (auto simp: is_answer_def prompted_def emit_def)

lemma ask_eof:
  "stdin w (pos w) = None \<Longrightarrow> ask p w = Some (Inl EOFError, emit (Prompt p) w)"
  by (subst ask.simps) simp

lemma prompted_prompted: "prompted p j (prompted p k w) = prompted p (k + j) w"
  by (simp add: prompted_def replicate_add add.assoc)

lemma prompted_fields [simp]:
  "stdin (prompted p k w) = stdin w" "pos (prompted p k w) = pos w + k"
  "sent (prompted p k w) = sent w" "files (prompted p k w) = files w"
  "server (prompted p k w) = server w" "openable (prompted p k w) = openable w"
  "out (prompted p k w) = out w @ replicate k (Prompt p)"
  by (simp_all add: prompted_def)

lemma ask_skip:
  "(\<forall>j<k. \<exists>line. stdin w (pos w + j) = Some line \<and> \<not> is_answer line) \<Longrightarrow>
   ask p w = ask p (prompted p k w)"
proof (induction k arbitrary: w)
  case 0
  then show ?case by (simp add: prompted_def)
next
  case (Suc k)
  from Suc.prems obtain line where l: "stdin w (pos w) = Some line" "\<not> is_answer line"
    by force
  have "\<forall>j<k. \<exists>line. stdin (prompted p 1 w) (pos (prompted p 1 w) + j) = Some line \<and> \<not> is_answer line"
    using Suc.prems by (auto simp: less_Suc_eq_0_disj)
  from Suc.IH[OF this] show ?case
    using l by (simp add: ask_retry prompted_prompted)
qed

lemma ask_SomeD:
  assumes "ask p w = Some y"
  shows "ask_result p w y"
proof (rule ask.raw_induct[where P = ask_result, OF _ assms])
  fix ask' p w y
  assume rec_hyp: "\<And>p w y. ask' p w = Some y \<Longrightarrow> ask_result p w y"
    and body: "(case stdin w (pos w) of None \<Rightarrow> Some (Inl EOFError, emit (Prompt p) w)
      | Some line \<Rightarrow>
          if strip (lower line) = ''y'' \<or> strip (lower line) = ''n''
          then Some (Inr (strip (lower line)), (emit (Prompt p) w)\<lparr>pos := Suc (pos w)\<rparr>)
          else ask' p ((emit (Prompt p) w)\<lparr>pos := Suc (pos w)\<rparr>)) = Some y"
  show "ask_result p w y"
  proof (cases "stdin w (pos w)")
    case None
    with body have "y = (Inl EOFError, emit (Prompt p) (prompted p 0 w))"
      by (simp add: prompted_def)
    with None show ?thesis
      unfolding ask_result_def by (intro exI[of _ 0]) simp
  next
    case (Some line)
    show ?thesis
    proof (cases "is_answer line")
      case True
      with Some body have "y = (Inr (strip (lower line)), prompted p (Suc 0) w)"
        by (auto simp: is_answer_def prompted_def emit_def)
      with Some True show ?thesis
        unfolding ask_result_def by (intro exI[of _ 0]) simp
    next
      case False
      with Some body have "ask' p (prompted p 1 w) = Some y"
        by (auto simp: is_answer_def prompted_def emit_def)
      from rec_hyp[OF this] obtain k where
        inv: "\<forall>j<k. \<exists>line. stdin w (pos w + 1 + j) = Some line \<and> \<not> is_answer line"
        and fin: "(stdin w (pos w + 1 + k) = None \<and> y = (Inl EOFError, emit (Prompt p) (prompted p k (prompted p 1 w))))
          \<or> (\<exists>a. stdin w (pos w + 1 + k) = Some a \<and> is_answer a
               \<and> y = (Inr (strip (lower a)), prompted p (Suc k) (prompted p 1 w)))"
        unfolding ask_result_def by auto
      have "\<forall>j<Suc k. \<exists>line. stdin w (pos w + j) = Some line \<and> \<not> is_answer line"
      proof (intro allI impI)
        fix j assume "j < Suc k"
        show "\<exists>line. stdin w (pos w + j) = Some line \<and> \<not> is_answer line"
        proof (cases j)
          case 0
          with Some False show ?thesis by simp
        next
          case (Suc j')
          with \<open>j < Suc k\<close> inv show ?thesis by auto
        qed
      qed
      moreover have "(stdin w (pos w + Suc k) = None \<and> y = (Inl EOFError, emit (Prompt p) (prompted p (Suc k) w)))
          \<or> (\<exists>a. stdin w (pos w + Suc k) = Some a \<and> is_answer a
               \<and> y = (Inr (strip (lower a)), prompted p (Suc (Suc k)) w))"
        using fin by (simp add: prompted_prompted)
      ultimately show ?thesis unfolding ask_result_def by blast
    qed
  qed
qed

lemma id_query_list:
  assumes "server w (sent w @ [id_request url]) = Response 200 (Json (JObj kvs))"
    and "map_of kvs ''objectIds'' = Some (JArr ids)"
  shows "get_layer_ids url (emit ev w) =
     ((JArr ids, None), w\<lparr>sent := sent w @ [id_request url], out := out w @ [ev]\<rparr>)"
proof -
  from assms(2) have "''objectIds'' \<in> fst ` set kvs"
    by (metis domI dom_map_of_conv_image_fst)
  with assms show ?thesis
    by (simp add: get_layer_ids_def requests_get_def emit_def layer_ids_of_def resp_json_def
        py_contains_def py_getitem_def)
qed

lemma size_check_large:
  assumes "length ids > 100000"
    and "\<forall>j<k. \<exists>line. stdin w (pos w + j) = Some line \<and> \<not> is_answer line"
    and "stdin w (pos w + k) = Some a" and "is_answer a"
  shows "size_check (JArr ids) err w =
    (if strip (lower a) = ''y''
     then Some (Inr (True, length ids), prompted AskHuge (Suc k) (emit (LargeLayer (length ids)) w))
     else Some (Inr (False, length ids), emit Skipped (prompted AskHuge (Suc k) (emit (LargeLayer (length ids)) w))))"
proof -
  let ?w = "emit (LargeLayer (length ids)) w"
  have s: "stdin ?w = stdin w" "pos ?w = pos w" by (simp_all add: emit_def)
  have "ask AskHuge ?w = ask AskHuge (prompted AskHuge k ?w)"
    using assms(2) by (intro ask_skip) (simp add: s)
  also have "\<dots> = Some (Inr (strip (lower a)), prompted AskHuge 1 (prompted AskHuge k ?w))"
    using assms(3,4) by (intro ask_answer) (simp_all add: s)
  finally have "ask AskHuge ?w = Some (Inr (strip (lower a)), prompted AskHuge (Suc k) ?w)"
    by (simp add: prompted_prompted)
  moreover from assms(1) have "ids \<noteq> []" by auto
  ultimately show ?thesis
    using assms(1) by (simp add: size_check_def py_len_def LARGE_LAYER_THRESHOLD_def)
qed

lemma size_check_large_SomeD:
  assumes "length ids > 100000" and "size_check (JArr ids) err w = Some (r, w')"
  shows "\<exists>k. (\<forall>j<k. \<exists>line. stdin w (pos w + j) = Some line \<and> \<not> is_answer line)
     \<and> ((\<exists>a. stdin w (pos w + k) = Some a \<and> strip (lower a) = ''y'' \<and> r = Inr (True, length ids))
       \<or> (\<exists>e. r = Inl e \<and> sent w' = sent w \<and> files w' = files w)
       \<or> (\<exists>n. r = Inr (False, n) \<and> sent w' = sent w \<and> files w' = files w))"
proof -
  let ?w = "emit (LargeLayer (length ids)) w"
  have s: "stdin ?w = stdin w" "pos ?w = pos w" "sent ?w = sent w" "files ?w = files w"
    by (simp_all add: emit_def)
  from assms(1) have ne: "ids \<noteq> []" by auto
  from assms ne obtain y where y: "ask AskHuge ?w = Some y"
    by (auto simp: size_check_def py_len_def LARGE_LAYER_THRESHOLD_def split: option.splits)
  from ask_SomeD[OF y] obtain k where
    inv: "\<forall>j<k. \<exists>line. stdin w (pos w + j) = Some line \<and> \<not> is_answer line"
    and fin: "(stdin w (pos w + k) = None \<and> y = (Inl EOFError, emit (Prompt AskHuge) (prompted AskHuge k ?w)))
       \<or> (\<exists>a. stdin w (pos w + k) = Some a \<and> is_answer a
             \<and> y = (Inr (strip (lower a)), prompted AskHuge (Suc k) ?w))"
    unfolding ask_result_def s by blast
  from fin assms y ne have "(\<exists>a. stdin w (pos w + k) = Some a \<and> strip (lower a) = ''y'' \<and> r = Inr (True, length ids))
       \<or> (\<exists>e. r = Inl e \<and> sent w' = sent w \<and> files w' = files w)
       \<or> (\<exists>n. r = Inr (False, n) \<and> sent w' = sent w \<and> files w' = files w)"
    by (auto simp: size_check_def py_len_def LARGE_LAYER_THRESHOLD_def emit_def prompted_def
        split: if_splits)
  with inv show ?thesis by blast
qed

lemma save_layer_frame:
  "\<exists>evs fs. snd (save_layer c i n g w) = w\<lparr>out := out w @ evs, files := fs\<rparr>
     \<and> (\<forall>p. Prompt p \<notin> set evs)"
proof (cases "has_features g")
  case (Inl e)
  then show ?thesis
    by (intro exI[of _ "[]"] exI[of _ "files w"]) (simp add: save_layer_def)
next
  case (Inr b)
  show ?thesis
  proof (cases b)
    case False
    with Inr show ?thesis
      by (intro exI[of _ "[DownloadFail]"] exI[of _ "files w"]) (simp add: save_layer_def emit_def)
  next
    case True
    show ?thesis
    proof (cases "layer_filename c i n")
      case (Inl e)
      with Inr True show ?thesis
        by (intro exI[of _ "[]"] exI[of _ "files w"]) (simp add: save_layer_def)
    next
      case (Inr f)
      show ?thesis
      proof (cases "openable w (path_join DOWNLOAD_FOLDER f)")
        case True
        with \<open>has_features g = Inr b\<close> \<open>b\<close> Inr show ?thesis
          by (intro exI[of _ "[Saved (path_join DOWNLOAD_FOLDER f)]"]
              exI[of _ "(files w)(path_join DOWNLOAD_FOLDER f \<mapsto> g)"])
            (simp add: save_layer_def emit_def)
      next
        case False
        with \<open>has_features g = Inr b\<close> \<open>b\<close> Inr show ?thesis
          by (intro exI[of _ "[]"] exI[of _ "files w"]) (simp add: save_layer_def)
      qed
    qed
  qed
qed

lemma execute_download_list:
  assumes "ids \<noteq> []"
  shows "\<exists>r evs fs. execute_download c url l_id l_name (JArr ids) (length ids) w =
     (r, w\<lparr>sent := sent w @ chunk_requests url ids, out := out w @ evs, files := fs\<rparr>)
     \<and> (\<forall>p. Prompt p \<notin> set evs)"
proof -
  obtain evs where d: "download_in_chunks url (JArr ids) (length ids) w =
     (Inr (feature_collection (concat (map returned
        (responses (server w) (sent w) (chunk_requests url ids))))),
      w\<lparr>sent := sent w @ chunk_requests url ids, out := out w @ evs\<rparr>)"
    and np: "\<forall>p. Prompt p \<notin> set evs"
    using download_in_chunks_list by blast
  let ?w = "w\<lparr>sent := sent w @ chunk_requests url ids, out := out w @ evs\<rparr>"
  let ?g = "feature_collection (concat (map returned
        (responses (server w) (sent w) (chunk_requests url ids))))"
  obtain evs' fs where s: "snd (save_layer c l_id l_name ?g ?w) = ?w\<lparr>out := out ?w @ evs', files := fs\<rparr>"
    and np': "\<forall>p. Prompt p \<notin> set evs'"
    using save_layer_frame by blast
  have "execute_download c url l_id l_name (JArr ids) (length ids) w =
     (fst (save_layer c l_id l_name ?g ?w),
      w\<lparr>sent := sent w @ chunk_requests url ids, out := out w @ (evs @ evs'), files := fs\<rparr>)"
    using assms s by (simp add: execute_download_def truthy_def d prod_eq_iff)
  with np np' show ?thesis by fastforce
qed

lemma layer_body_large:
  assumes "py_getitem layer ''name'' = Inr l_name" and "py_getitem layer ''id'' = Inr l_id"
    and "url = service_url @ ''/'' @ py_str l_id"
    and "server w (sent w @ [id_request url]) = Response 200 (Json (JObj kvs))"
    and "map_of kvs ''objectIds'' = Some (JArr ids)"
    and "length ids > 100000"
  shows "layer_body c service_url layer w =
    (case size_check (JArr ids) None
            (w\<lparr>sent := sent w @ [id_request url], out := out w @ [Checking c l_name]\<rparr>) of
       None \<Rightarrow> None
     | Some (Inl e, w2) \<Rightarrow> Some (Inl e, w2)
     | Some (Inr (should_download, total_count), w2) \<Rightarrow>
         if should_download
         then Some (execute_download c url l_id l_name (JArr ids) total_count w2)
         else Some (Inr (), w2))"
proof -
  let ?w0 = "w\<lparr>sent := sent w @ [id_request url], out := out w @ [Checking c l_name]\<rparr>"
  have q: "get_layer_ids url (emit (Checking c l_name) w) = ((JArr ids, None), ?w0)"
    using assms(4,5) by (rule id_query_list)
  show ?thesis
    using assms(1,2) q unfolding assms(3) by (simp add: layer_body_def)
qed

lemma layer_body_answered:
  assumes "py_getitem layer ''name'' = Inr l_name" and "py_getitem layer ''id'' = Inr l_id"
    and "url = service_url @ ''/'' @ py_str l_id"
    and "server w (sent w @ [id_request url]) = Response 200 (Json (JObj kvs))"
    and "map_of kvs ''objectIds'' = Some (JArr ids)"
    and "length ids > 100000"
    and "w1 = w\<lparr>sent := sent w @ [id_request url],
                 out := out w @ [Checking c l_name, LargeLayer (length ids)]\<rparr>"
    and "\<forall>j<k. \<exists>line. stdin w (pos w + j) = Some line \<and> \<not> is_answer line"
    and "stdin w (pos w + k) = Some a" and "is_answer a"
  shows "layer_body c service_url layer w =
            (if strip (lower a) = ''y''
             then Some (execute_download c url l_id l_name (JArr ids) (length ids)
                          (prompted AskHuge (Suc k) w1))
             else Some (Inr (), emit Skipped (prompted AskHuge (Suc k) w1)))"
proof -
  let ?w0 = "w\<lparr>sent := sent w @ [id_request url], out := out w @ [Checking c l_name]\<rparr>"
  have w1: "emit (LargeLayer (length ids)) ?w0 = w1"
    by (simp add: assms(7) emit_def)
  have f0: "stdin ?w0 = stdin w" "pos ?w0 = pos w"
    by simp_all
  have "size_check (JArr ids) None ?w0 =
      (if strip (lower a) = ''y''
       then Some (Inr (True, length ids), prompted AskHuge (Suc k) (emit (LargeLayer (length ids)) ?w0))
       else Some (Inr (False, length ids), emit Skipped (prompted AskHuge (Suc k) (emit (LargeLayer (length ids)) ?w0))))"
    using assms(6,8,9,10) by (intro size_check_large) (simp_all add: f0)
  then show ?thesis
    by (simp add: layer_body_large[OF assms(1-6)] w1)
qed

lemma layer_body_approved:
  assumes "py_getitem layer ''name'' = Inr l_name" and "py_getitem layer ''id'' = Inr l_id"
    and "url = service_url @ ''/'' @ py_str l_id"
    and "server w (sent w @ [id_request url]) = Response 200 (Json (JObj kvs))"
    and "map_of kvs ''objectIds'' = Some (JArr ids)"
    and "length ids > 100000"
    and "\<forall>j<k. \<exists>line. stdin w (pos w + j) = Some line \<and> \<not> is_answer line"
    and "stdin w (pos w + k) = Some a" and "strip (lower a) = ''y''"
  shows "\<exists>r evs fs. layer_body c service_url layer w =
      Some (r, w\<lparr>sent := sent w @ id_request url # chunk_requests url ids, pos := pos w + Suc k,
                 out := out w @ evs, files := fs\<rparr>)"
proof -
  let ?w1 = "w\<lparr>sent := sent w @ [id_request url],
                 out := out w @ [Checking c l_name, LargeLayer (length ids)]\<rparr>"
  let ?w2 = "prompted AskHuge (Suc k) ?w1"
  from assms(9) have ans: "is_answer a" by (simp add: is_answer_def)
  have b: "layer_body c service_url layer w =
      Some (execute_download c url l_id l_name (JArr ids) (length ids) ?w2)"
    using layer_body_answered[OF assms(1-6) refl assms(7,8) ans, of c] assms(9) by simp
  from assms(6) have "ids \<noteq> []" by auto
  from execute_download_list[OF this, of c url l_id l_name ?w2]
  obtain r evs fs where e: "execute_download c url l_id l_name (JArr ids) (length ids) ?w2 =
      (r, ?w2\<lparr>sent := sent ?w2 @ chunk_requests url ids, out := out ?w2 @ evs, files := fs\<rparr>)"
    by blast
  have "layer_body c service_url layer w =
      Some (r, w\<lparr>sent := sent w @ id_request url # chunk_requests url ids, pos := pos w + Suc k,
                 out := out w @ ([Checking c l_name, LargeLayer (length ids)]
                    @ replicate (Suc k) (Prompt AskHuge) @ evs), files := fs\<rparr>)"
    unfolding b e by (simp add: prompted_def)
  then show ?thesis by blast
qed

text \<open>
  Claim C3, as the code has it. A layer whose identifier query returns more than 100000
  IDs; a line is read as \<^verbatim>\<open>lower().strip()\<close> makes it, so that \<^verbatim>\<open>Y\<close> or
  \<^verbatim>\<open> y \<close> is the answer \<^verbatim>\<open>y\<close>. When the input holds \<open>k\<close> lines that are
  neither answer and then an answer, the prompt is shown \<open>k + 1\<close> times with nothing
  sent or written in between; on \<^verbatim>\<open>n\<close> the layer ends there (\<^verbatim>\<open>Skipped\<close>), with
  the identifier query as its only request and no file written; on \<^verbatim>\<open>y\<close> the
  download runs, and the batch requests follow the identifier query. Whenever the layer
  ends having sent another request or changed a file, the answer read was \<^verbatim>\<open>y\<close>.
\<close>

theorem C3_large_layer_needs_confirmation:
  assumes "py_getitem layer ''name'' = Inr l_name" and "py_getitem layer ''id'' = Inr l_id"
    and "url = service_url @ ''/'' @ py_str l_id"
    and "server w (sent w @ [id_request url]) = Response 200 (Json (JObj kvs))"
    and "map_of kvs ''objectIds'' = Some (JArr ids)"
    and "length ids > 100000"
    and "w1 = w\<lparr>sent := sent w @ [id_request url],
                 out := out w @ [Checking c l_name, LargeLayer (length ids)]\<rparr>"
  shows "((\<forall>j<k. \<exists>line. stdin w (pos w + j) = Some line \<and> \<not> is_answer line)
           \<and> stdin w (pos w + k) = Some a \<and> is_answer a \<longrightarrow>
          layer_body c service_url layer w =
            (if strip (lower a) = ''y''
             then Some (execute_download c url l_id l_name (JArr ids) (length ids)
                          (prompted AskHuge (Suc k) w1))
             else Some (Inr (), emit Skipped (prompted AskHuge (Suc k) w1))))
     \<and> ((\<forall>j<k. \<exists>line. stdin w (pos w + j) = Some line \<and> \<not> is_answer line)
           \<and> stdin w (pos w + k) = Some a \<and> strip (lower a) = ''y'' \<longrightarrow>
          (\<exists>r evs fs. layer_body c service_url layer w =
             Some (r, w\<lparr>sent := sent w @ id_request url # chunk_requests url ids,
                        pos := pos w + Suc k, out := out w @ evs, files := fs\<rparr>)))
     \<and> (layer_body c service_url layer w = Some (r, w')
           \<and> (sent w' \<noteq> sent w @ [id_request url] \<or> files w' \<noteq> files w) \<longrightarrow>
         (\<exists>k a. (\<forall>j<k. \<exists>line. stdin w (pos w + j) = Some line \<and> \<not> is_answer line)
            \<and> stdin w (pos w + k) = Some a \<and> strip (lower a) = ''y''))"
proof -
  let ?w0 = "w\<lparr>sent := sent w @ [id_request url], out := out w @ [Checking c l_name]\<rparr>"
  have f0: "stdin ?w0 = stdin w" "pos ?w0 = pos w" "sent ?w0 = sent w @ [id_request url]"
    "files ?w0 = files w"
    by simp_all
  note body = layer_body_large[OF assms(1-6), of c]
  have one: "layer_body c service_url layer w =
            (if strip (lower a) = ''y''
             then Some (execute_download c url l_id l_name (JArr ids) (length ids)
                          (prompted AskHuge (Suc k) w1))
             else Some (Inr (), emit Skipped (prompted AskHuge (Suc k) w1)))"
    if "\<forall>j<k. \<exists>line. stdin w (pos w + j) = Some line \<and> \<not> is_answer line"
      and "stdin w (pos w + k) = Some a" and "is_answer a"
    using layer_body_answered[OF assms that] .
  have sends: "\<exists>r evs fs. layer_body c service_url layer w =
             Some (r, w\<lparr>sent := sent w @ id_request url # chunk_requests url ids,
                        pos := pos w + Suc k, out := out w @ evs, files := fs\<rparr>)"
    if "\<forall>j<k. \<exists>line. stdin w (pos w + j) = Some line \<and> \<not> is_answer line"
      and "stdin w (pos w + k) = Some a" and "strip (lower a) = ''y''"
    using layer_body_approved[OF assms(1-6) that] .
  have two: "\<exists>k a. (\<forall>j<k. \<exists>line. stdin w (pos w + j) = Some line \<and> \<not> is_answer line)
            \<and> stdin w (pos w + k) = Some a \<and> strip (lower a) = ''y''"
    if run: "layer_body c service_url layer w = Some (r, w')"
      and eff: "sent w' \<noteq> sent w @ [id_request url] \<or> files w' \<noteq> files w"
  proof -
    from run body obtain r2 w2 where sc: "size_check (JArr ids) None ?w0 = Some (r2, w2)"
      by (auto split: option.splits)
    from size_check_large_SomeD[OF assms(6) sc] obtain k where
      inv: "\<forall>j<k. \<exists>line. stdin w (pos w + j) = Some line \<and> \<not> is_answer line"
      and fin: "(\<exists>a. stdin w (pos w + k) = Some a \<and> strip (lower a) = ''y'' \<and> r2 = Inr (True, length ids))
       \<or> (\<exists>e. r2 = Inl e \<and> sent w2 = sent w @ [id_request url] \<and> files w2 = files w)
       \<or> (\<exists>n. r2 = Inr (False, n) \<and> sent w2 = sent w @ [id_request url] \<and> files w2 = files w)"
      unfolding f0 by blast
    from fin run eff body sc have "\<exists>a. stdin w (pos w + k) = Some a \<and> strip (lower a) = ''y''"
      by auto
    with inv show ?thesis by blast
  qed
  from one sends two show ?thesis by blast
qed

lemmas str_simps = lower_def char_lower_def char_of_def bit_Suc_0_iff strip_def is_space_def
  is_answer_def

text \<open>The layer of 100001 IDs. With the lines \<^verbatim>\<open>maybe\<close> and \<^verbatim>\<open>N\<close> on standard
  input: two prompts, then the layer is skipped with the identifier query as the only
  request. With the lines \<^verbatim>\<open>yes\<close> and \<^verbatim>\<open> y \<close>: two lines read, and the batch
  requests follow the identifier query.\<close>

theorem C3_large_layer_needs_confirmation_witness:
  "layer_body ''Gaza_Checkpoints'' scenario_service_url scenario_layer
      (initial_world huge_server [''maybe'', ''N'']) =
   Some (Inr (), emit Skipped (prompted AskHuge 2
     ((initial_world huge_server [''maybe'', ''N''])
        \<lparr>sent := [id_request scenario_layer_url],
          out := [Checking ''Gaza_Checkpoints'' (JStr ''Checkpoints''), LargeLayer 100001]\<rparr>)))
   \<and> (\<exists>r evs fs. layer_body ''Gaza_Checkpoints'' scenario_service_url scenario_layer
          (initial_world huge_server [''yes'', '' y '']) =
        Some (r, (initial_world huge_server [''yes'', '' y ''])
          \<lparr>sent := id_request scenario_layer_url # chunk_requests scenario_layer_url huge_ids,
            pos := 2, out := evs, files := fs\<rparr>))"
proof -
  let ?w = "initial_world huge_server [''maybe'', ''N'']"
  let ?v = "initial_world huge_server [''yes'', '' y '']"
  have h1: "py_getitem scenario_layer ''name'' = Inr (JStr ''Checkpoints'')"
    and h2: "py_getitem scenario_layer ''id'' = Inr (JInt 0)"
    by (simp_all add: py_getitem_def scenario_layer_def)
  have h3: "scenario_layer_url = scenario_service_url @ ''/'' @ py_str (JInt 0)"
    by (simp add: scenario_layer_url_def scenario_service_url_def py_str_def show_int_def
        show_nat.simps digit_char_def)
  have h4: "server (initial_world huge_server ls) (sent (initial_world huge_server ls) @ [id_request scenario_layer_url]) =
      Response 200 (Json (JObj [(''objectIds'', JArr huge_ids)]))" for ls
    by (simp add: initial_world_def huge_server_def one_layer_server_def id_request_def
        ids_answer_def scenario_layer_url_def BASE_URL_def)
  have h5: "map_of [(''objectIds'', JArr huge_ids)] ''objectIds'' = Some (JArr huge_ids)"
    by simp
  have h6: "length huge_ids > 100000"
    by (simp add: huge_ids_def)
  have h7: "?w\<lparr>sent := [id_request scenario_layer_url],
          out := [Checking ''Gaza_Checkpoints'' (JStr ''Checkpoints''), LargeLayer 100001]\<rparr> =
      ?w\<lparr>sent := sent ?w @ [id_request scenario_layer_url],
          out := out ?w @ [Checking ''Gaza_Checkpoints'' (JStr ''Checkpoints''), LargeLayer (length huge_ids)]\<rparr>"
    by (simp add: initial_world_def huge_ids_def)
  have lines: "(\<forall>j<1. \<exists>line. stdin ?w (pos ?w + j) = Some line \<and> \<not> is_answer line)
      \<and> stdin ?w (pos ?w + 1) = Some ''N'' \<and> is_answer ''N''"
    by (simp add: initial_world_def str_simps)
  have n: "strip (lower ''N'') \<noteq> ''y''"
    by (simp add: str_simps)
  from C3_large_layer_needs_confirmation[OF h1 h2 h3 h4[of "[''maybe'', ''N'']"] h5 h6 h7,
      where k = 1 and a = "''N''"] lines n
  have one: "layer_body ''Gaza_Checkpoints'' scenario_service_url scenario_layer ?w =
   Some (Inr (), emit Skipped (prompted AskHuge 2
     (?w\<lparr>sent := [id_request scenario_layer_url],
          out := [Checking ''Gaza_Checkpoints'' (JStr ''Checkpoints''), LargeLayer 100001]\<rparr>)))"
    by (simp add: numeral_2_eq_2)
  have lines': "(\<forall>j<1. \<exists>line. stdin ?v (pos ?v + j) = Some line \<and> \<not> is_answer line)
      \<and> stdin ?v (pos ?v + 1) = Some '' y '' \<and> strip (lower '' y '') = ''y''"
    by (simp add: initial_world_def str_simps)
  from C3_large_layer_needs_confirmation[OF h1 h2 h3 h4[of "[''yes'', '' y '']"] h5 h6 refl,
      where k = 1 and a = "'' y ''"] lines'
  have "\<exists>r evs fs. layer_body ''Gaza_Checkpoints'' scenario_service_url scenario_layer ?v =
        Some (r, ?v\<lparr>sent := sent ?v @ id_request scenario_layer_url # chunk_requests scenario_layer_url huge_ids,
            pos := pos ?v + Suc 1, out := out ?v @ evs, files := fs\<rparr>)"
    by blast
  then have two: "\<exists>r evs fs. layer_body ''Gaza_Checkpoints'' scenario_service_url scenario_layer ?v =
        Some (r, ?v\<lparr>sent := id_request scenario_layer_url # chunk_requests scenario_layer_url huge_ids,
            pos := 2, out := evs, files := fs\<rparr>)"
    by (simp add: initial_world_def numeral_2_eq_2)
  from one two show ?thesis by blast
qed

text \<open>Claim C3 as stated fails on the line \<^verbatim>\<open>Y\<close>, which is neither \<^verbatim>\<open>y\<close> nor
  \<^verbatim>\<open>n\<close>: the layer of 100001 IDs is downloaded after the first prompt, with the one
  line read and the 101 batch requests sent behind the identifier query.\<close>

theorem C3_capital_letter_counterexample:
  "''Y'' \<noteq> ''y'' \<and> ''Y'' \<noteq> ''n''
   \<and> map_option (\<lambda>(r, w). (sent w, pos w, count_list (out w) (Prompt AskHuge)))
       (layer_body ''Gaza_Checkpoints'' scenario_service_url scenario_layer
          (initial_world huge_server [''Y''])) =
     Some (id_request scenario_layer_url # chunk_requests scenario_layer_url huge_ids, 1, 1)
   \<and> length (chunk_requests scenario_layer_url huge_ids) = 101"
proof -
  let ?w = "initial_world huge_server [''Y'']"
  have h1: "py_getitem scenario_layer ''name'' = Inr (JStr ''Checkpoints'')"
    and h2: "py_getitem scenario_layer ''id'' = Inr (JInt 0)"
    by (simp_all add: py_getitem_def scenario_layer_def)
  have h3: "scenario_layer_url = scenario_service_url @ ''/'' @ py_str (JInt 0)"
    by (simp add: scenario_layer_url_def scenario_service_url_def py_str_def show_int_def
        show_nat.simps digit_char_def)
  have h4: "server ?w (sent ?w @ [id_request scenario_layer_url]) =
      Response 200 (Json (JObj [(''objectIds'', JArr huge_ids)]))"
    by (simp add: initial_world_def huge_server_def one_layer_server_def id_request_def
        ids_answer_def scenario_layer_url_def BASE_URL_def)
  have h5: "map_of [(''objectIds'', JArr huge_ids)] ''objectIds'' = Some (JArr huge_ids)"
    by simp
  have h6: "length huge_ids > 100000"
    by (simp add: huge_ids_def)
  have h7: "\<forall>j<0. \<exists>line. stdin ?w (pos ?w + j) = Some line \<and> \<not> is_answer line"
    by simp
  have h8: "stdin ?w (pos ?w + 0) = Some ''Y''"
    by (simp add: initial_world_def)
  have h9: "strip (lower ''Y'') = ''y''"
    by (simp add: str_simps)
  let ?ev0 = "[Checking ''Gaza_Checkpoints'' (JStr ''Checkpoints''), LargeLayer (length huge_ids),
      Prompt AskHuge]"
  have d: "\<exists>r evs fs. execute_download ''Gaza_Checkpoints'' scenario_layer_url (JInt 0)
      (JStr ''Checkpoints'') (JArr huge_ids) (length huge_ids)
      (prompted AskHuge (Suc 0) (?w\<lparr>sent := sent ?w @ [id_request scenario_layer_url],
          out := out ?w @ [Checking ''Gaza_Checkpoints'' (JStr ''Checkpoints''), LargeLayer (length huge_ids)]\<rparr>)) =
      (r, ?w\<lparr>sent := id_request scenario_layer_url # chunk_requests scenario_layer_url huge_ids,
             pos := 1, out := ?ev0 @ evs, files := fs\<rparr>) \<and> (\<forall>p. Prompt p \<notin> set evs)"
  proof -
    let ?w2 = "prompted AskHuge (Suc 0) (?w\<lparr>sent := sent ?w @ [id_request scenario_layer_url],
          out := out ?w @ [Checking ''Gaza_Checkpoints'' (JStr ''Checkpoints''), LargeLayer (length huge_ids)]\<rparr>)"
    from h6 have "huge_ids \<noteq> []" by auto
    from execute_download_list[OF this, of "''Gaza_Checkpoints''" scenario_layer_url "JInt 0"
        "JStr ''Checkpoints''" ?w2]
    obtain r evs fs where e: "execute_download ''Gaza_Checkpoints'' scenario_layer_url (JInt 0)
        (JStr ''Checkpoints'') (JArr huge_ids) (length huge_ids) ?w2 =
        (r, ?w2\<lparr>sent := sent ?w2 @ chunk_requests scenario_layer_url huge_ids,
                 out := out ?w2 @ evs, files := fs\<rparr>)" and np: "\<forall>p. Prompt p \<notin> set evs"
      by blast
    have "execute_download ''Gaza_Checkpoints'' scenario_layer_url (JInt 0)
        (JStr ''Checkpoints'') (JArr huge_ids) (length huge_ids) ?w2 =
      (r, ?w\<lparr>sent := id_request scenario_layer_url # chunk_requests scenario_layer_url huge_ids,
             pos := 1, out := ?ev0 @ evs, files := fs\<rparr>)"
      unfolding e by (simp add: prompted_def initial_world_def)
    with np show ?thesis by blast
  qed
  have ans: "is_answer ''Y''" using h9 by (simp add: is_answer_def)
  have b: "layer_body ''Gaza_Checkpoints'' scenario_service_url scenario_layer ?w =
      Some (execute_download ''Gaza_Checkpoints'' scenario_layer_url (JInt 0)
      (JStr ''Checkpoints'') (JArr huge_ids) (length huge_ids)
      (prompted AskHuge (Suc 0) (?w\<lparr>sent := sent ?w @ [id_request scenario_layer_url],
          out := out ?w @ [Checking ''Gaza_Checkpoints'' (JStr ''Checkpoints''), LargeLayer (length huge_ids)]\<rparr>)))"
    using layer_body_answered[OF h1 h2 h3 h4 h5 h6 refl h7 h8 ans, of "''Gaza_Checkpoints''"] h9
    by simp
  from d obtain r evs fs where e: "execute_download ''Gaza_Checkpoints'' scenario_layer_url (JInt 0)
      (JStr ''Checkpoints'') (JArr huge_ids) (length huge_ids)
      (prompted AskHuge (Suc 0) (?w\<lparr>sent := sent ?w @ [id_request scenario_layer_url],
          out := out ?w @ [Checking ''Gaza_Checkpoints'' (JStr ''Checkpoints''), LargeLayer (length huge_ids)]\<rparr>)) =
      (r, ?w\<lparr>sent := id_request scenario_layer_url # chunk_requests scenario_layer_url huge_ids,
             pos := 1, out := ?ev0 @ evs, files := fs\<rparr>)" and np: "\<forall>p. Prompt p \<notin> set evs"
    by blast
  from np have "count_list evs (Prompt AskHuge) = 0"
    by (simp add: count_list_0_iff)
  then have run: "map_option (\<lambda>(r, w). (sent w, pos w, count_list (out w) (Prompt AskHuge)))
       (layer_body ''Gaza_Checkpoints'' scenario_service_url scenario_layer ?w) =
     Some (id_request scenario_layer_url # chunk_requests scenario_layer_url huge_ids, 1, 1)"
    unfolding b e by simp
  have n: "length (chunk_requests scenario_layer_url huge_ids) = 101"
    by (simp add: chunk_requests_def id_windows_def huge_ids_def)
  from run n show ?thesis by simp
qed

text \<open>
  Claim C2. A layer whose identifier query returns a list of \<open>N\<close> IDs. For \<open>N = 0\<close> the
  layer is reported empty and nothing more is sent. For \<open>0 < N \<le> 100000\<close> the download
  starts at once: the batch requests follow the identifier query, no line of input is
  read and no prompt is written.
\<close>

theorem C2_small_layers_need_no_prompt:
  assumes "py_getitem layer ''name'' = Inr l_name" and "py_getitem layer ''id'' = Inr l_id"
    and "url = service_url @ ''/'' @ py_str l_id"
    and "server w (sent w @ [id_request url]) = Response 200 (Json (JObj kvs))"
    and "map_of kvs ''objectIds'' = Some (JArr ids)"
  shows "(length ids = 0 \<longrightarrow>
           layer_body c service_url layer w =
             Some (Inr (), w\<lparr>sent := sent w @ [id_request url],
                               out := out w @ [Checking c l_name, EmptyLayer]\<rparr>))
     \<and> (0 < length ids \<and> length ids \<le> 100000 \<longrightarrow>
           layer_body c service_url layer w =
             Some (execute_download c url l_id l_name (JArr ids) (length ids)
                     (w\<lparr>sent := sent w @ [id_request url],
                        out := out w @ [Checking c l_name, SizeOk (length ids)]\<rparr>))
           \<and> (\<exists>r evs fs. layer_body c service_url layer w =
                 Some (r, w\<lparr>sent := sent w @ id_request url # chunk_requests url ids,
                            out := out w @ evs, files := fs\<rparr>)
                 \<and> (\<forall>p. Prompt p \<notin> set evs)))"
proof -
  let ?w0 = "w\<lparr>sent := sent w @ [id_request url], out := out w @ [Checking c l_name]\<rparr>"
  have q: "get_layer_ids url (emit (Checking c l_name) w) = ((JArr ids, None), ?w0)"
    using assms(4,5) by (rule id_query_list)
  have body: "layer_body c service_url layer w =
    (case size_check (JArr ids) None ?w0 of
       None \<Rightarrow> None
     | Some (Inl e, w2) \<Rightarrow> Some (Inl e, w2)
     | Some (Inr (should_download, total_count), w2) \<Rightarrow>
         if should_download
         then Some (execute_download c url l_id l_name (JArr ids) total_count w2)
         else Some (Inr (), w2))"
    using assms(1,2) q unfolding assms(3) by (simp add: layer_body_def)
  have empty: "layer_body c service_url layer w =
             Some (Inr (), w\<lparr>sent := sent w @ [id_request url],
                               out := out w @ [Checking c l_name, EmptyLayer]\<rparr>)"
    if "length ids = 0"
    using that by (simp add: body size_check_def py_len_def emit_def)
  have small: "layer_body c service_url layer w =
             Some (execute_download c url l_id l_name (JArr ids) (length ids)
                     (w\<lparr>sent := sent w @ [id_request url],
                        out := out w @ [Checking c l_name, SizeOk (length ids)]\<rparr>))"
    if "0 < length ids" "length ids \<le> 100000"
    using that by (simp add: body size_check_def py_len_def emit_def LARGE_LAYER_THRESHOLD_def)
  have run: "\<exists>r evs fs. layer_body c service_url layer w =
                 Some (r, w\<lparr>sent := sent w @ id_request url # chunk_requests url ids,
                            out := out w @ evs, files := fs\<rparr>)
                 \<and> (\<forall>p. Prompt p \<notin> set evs)"
    if "0 < length ids" "length ids \<le> 100000"
  proof -
    let ?w1 = "w\<lparr>sent := sent w @ [id_request url],
                        out := out w @ [Checking c l_name, SizeOk (length ids)]\<rparr>"
    from that have "ids \<noteq> []" by auto
    from execute_download_list[OF this, of c url l_id l_name ?w1]
    obtain r evs fs where e: "execute_download c url l_id l_name (JArr ids) (length ids) ?w1 =
        (r, ?w1\<lparr>sent := sent ?w1 @ chunk_requests url ids, out := out ?w1 @ evs, files := fs\<rparr>)"
      and np: "\<forall>p. Prompt p \<notin> set evs"
      by blast
    have "layer_body c service_url layer w =
                 Some (r, w\<lparr>sent := sent w @ id_request url # chunk_requests url ids,
                            out := out w @ ([Checking c l_name, SizeOk (length ids)] @ evs), files := fs\<rparr>)
          \<and> (\<forall>p. Prompt p \<notin> set ([Checking c l_name, SizeOk (length ids)] @ evs))"
      using np by (simp add: small[OF that] e)
    then show ?thesis by blast
  qed
  from empty small run show ?thesis by blast
qed

theorem C2_small_layers_need_no_prompt_witness:
  "\<exists>r evs fs. layer_body ''Gaza_Checkpoints'' scenario_service_url scenario_layer
       (initial_world scenario_server []) =
     Some (r, (initial_world scenario_server [])
       \<lparr>sent := id_request scenario_layer_url # chunk_requests scenario_layer_url scenario_ids,
         out := evs, files := fs\<rparr>)
     \<and> (\<forall>p. Prompt p \<notin> set evs)"
proof -
  let ?w = "initial_world scenario_server []"
  have h1: "py_getitem scenario_layer ''name'' = Inr (JStr ''Checkpoints'')"
    and h2: "py_getitem scenario_layer ''id'' = Inr (JInt 0)"
    by (simp_all add: py_getitem_def scenario_layer_def)
  have h3: "scenario_layer_url = scenario_service_url @ ''/'' @ py_str (JInt 0)"
    by (simp add: scenario_layer_url_def scenario_service_url_def py_str_def show_int_def
        show_nat.simps digit_char_def)
  have h4: "server ?w (sent ?w @ [id_request scenario_layer_url]) =
      Response 200 (Json (JObj [(''objectIds'', JArr scenario_ids)]))"
    by (simp add: initial_world_def scenario_server_def one_layer_server_def id_request_def
        ids_answer_def scenario_layer_url_def BASE_URL_def)
  have h5: "map_of [(''objectIds'', JArr scenario_ids)] ''objectIds'' = Some (JArr scenario_ids)"
    by simp
  have n: "0 < length scenario_ids \<and> length scenario_ids \<le> 100000"
    by (simp add: scenario_ids_def)
  from C2_small_layers_need_no_prompt[OF h1 h2 h3 h4 h5, of "''Gaza_Checkpoints''"] n
  have "\<exists>r evs fs. layer_body ''Gaza_Checkpoints'' scenario_service_url scenario_layer ?w =
      Some (r, ?w\<lparr>sent := sent ?w @ id_request scenario_layer_url #
                 chunk_requests scenario_layer_url scenario_ids,
               out := out ?w @ evs, files := fs\<rparr>)
      \<and> (\<forall>p. Prompt p \<notin> set evs)"
    by blast
  then show ?thesis by (simp add: initial_world_def)
qed

text \<open>
  Claim C10. Both prompts compare \<^verbatim>\<open>input(...).lower().strip()\<close> with \<^verbatim>\<open>y\<close> and
  \<^verbatim>\<open>n\<close>: \<^verbatim>\<open>Y\<close>, \<^verbatim>\<open> y \<close> and \<^verbatim>\<open>N\<close> are answers, and any line that
  normalises to \<^verbatim>\<open>y\<close> confirms the download of a large layer and of a layer of
  unknown size.
\<close>

theorem C10_answers_are_normalised:
  "strip (lower ''Y'') = ''y'' \<and> strip (lower '' y '') = ''y'' \<and> strip (lower ''N'') = ''n''
   \<and> (stdin w (pos w) = Some line \<and> (strip (lower line) = ''y'' \<or> strip (lower line) = ''n'') \<longrightarrow>
        ask p w = Some (Inr (strip (lower line)), prompted p 1 w))
   \<and> (stdin w (pos w) = Some line \<and> strip (lower line) = ''y'' \<longrightarrow>
        (100000 < length ids \<longrightarrow>
           size_check (JArr ids) err w =
             Some (Inr (True, length ids), prompted AskHuge 1 (emit (LargeLayer (length ids)) w)))
        \<and> size_check JNull err w = Some (Inr (True, 0), prompted AskAnyway 1 (emit (SizeUnknown err) w)))"
proof -
  have a: "ask p w = Some (Inr (strip (lower line)), prompted p 1 w)"
    if "stdin w (pos w) = Some line" "strip (lower line) = ''y'' \<or> strip (lower line) = ''n''" for p w
    using that by (intro ask_answer) (simp_all add: is_answer_def)
  have b: "size_check (JArr ids) err w =
             Some (Inr (True, length ids), prompted AskHuge 1 (emit (LargeLayer (length ids)) w))"
    if "stdin w (pos w) = Some line" "strip (lower line) = ''y''" "100000 < length ids"
  proof -
    from that(3) have "ids \<noteq> []" by auto
    moreover have "ask AskHuge (emit (LargeLayer (length ids)) w) =
        Some (Inr (strip (lower line)), prompted AskHuge 1 (emit (LargeLayer (length ids)) w))"
      using that by (intro a) (simp_all add: emit_def)
    ultimately show ?thesis
      using that by (simp add: size_check_def py_len_def LARGE_LAYER_THRESHOLD_def)
  qed
  have c: "size_check JNull err w = Some (Inr (True, 0), prompted AskAnyway 1 (emit (SizeUnknown err) w))"
    if "stdin w (pos w) = Some line" "strip (lower line) = ''y''"
  proof -
    have "ask AskAnyway (emit (SizeUnknown err) w) =
        Some (Inr (strip (lower line)), prompted AskAnyway 1 (emit (SizeUnknown err) w))"
      using that by (intro a) (simp_all add: emit_def)
    then show ?thesis
      using that by (simp add: size_check_def)
  qed
  have d: "strip (lower ''Y'') = ''y''" "strip (lower '' y '') = ''y''" "strip (lower ''N'') = ''n''"
    by (simp_all add: str_simps)
  from a b c d show ?thesis by blast
qed

theorem C10_answers_are_normalised_witness:
  "ask AskHuge (initial_world scenario_server ['' Y '']) =
     Some (Inr ''y'', prompted AskHuge 1 (initial_world scenario_server ['' Y '']))
   \<and> size_check JNull (Some NoIdQuery) (initial_world scenario_server ['' Y '']) =
     Some (Inr (True, 0), prompted AskAnyway 1
       (emit (SizeUnknown (Some NoIdQuery)) (initial_world scenario_server ['' Y ''])))"
proof -
  let ?w = "initial_world scenario_server ['' Y '']"
  have l: "stdin ?w (pos ?w) = Some '' Y ''"
    by (simp add: initial_world_def)
  have y: "strip (lower '' Y '') = ''y''"
    by (simp add: str_simps)
  from C10_answers_are_normalised[of ?w "'' Y ''" AskHuge "[]" "Some NoIdQuery"] l y
  show ?thesis by simp
qed

section \<open>Runs do not read their own output\<close>

lemma merge_fields [simp]:
  "server (merge w e) = server e" "sent (merge w e) = sent e" "stdin (merge w e) = stdin e"
  "pos (merge w e) = pos e" "openable (merge w e) = openable e"
  "out (merge w e) = out w @ out e" "files (merge w e) = files w ++ files e"
  "folder_exists (merge w e) = folder_exists w" "mkdir_ok (merge w e) = mkdir_ok w"
  by (simp_all add: merge_def)

lemma merge_erase: "merge w (erase w) = w"
  by (simp add: merge_def erase_def)

lemma merge_emit [simp]: "emit ev (merge w e) = merge w (emit ev e)"
  by (simp add: merge_def emit_def)

lemma merge_sent [simp]: "(merge w e)\<lparr>sent := s\<rparr> = merge w (e\<lparr>sent := s\<rparr>)"
  by (simp add: merge_def)

lemma merge_pos [simp]: "(merge w e)\<lparr>pos := s\<rparr> = merge w (e\<lparr>pos := s\<rparr>)"
  by (simp add: merge_def)

lemma merge_files [simp]:
  "(merge w e)\<lparr>files := (files w ++ files e)(p \<mapsto> g)\<rparr> = merge w (e\<lparr>files := (files e)(p \<mapsto> g)\<rparr>)"
  by (simp add: merge_def)

lemma requests_get_merge [simp]:
  "requests_get rq (merge w e) = (fst (requests_get rq e), merge w (snd (requests_get rq e)))"
  by (simp add: requests_get_def)

lemma get_layer_ids_merge [simp]:
  "get_layer_ids url (merge w e) = (fst (get_layer_ids url e), merge w (snd (get_layer_ids url e)))"
  by (simp add: get_layer_ids_def split: prod.splits)

lemma simple_download_merge [simp]:
  "simple_download url (merge w e) = (fst (simple_download url e), merge w (snd (simple_download url e)))"
  by (simp add: simple_download_def split: prod.splits http_result.splits)

lemma chunk_body_merge [simp]:
  "chunk_body url ids tc i acc (merge w e) =
     map_sum id (\<lambda>(fs, e'). (fs, merge w e')) (chunk_body url ids tc i acc e)"
  by (simp add: chunk_body_def split: sum.splits option.splits prod.splits)

lemma chunk_loop_merge [simp]:
  "chunk_loop url ids tc i acc (merge w e) =
     (fst (chunk_loop url ids tc i acc e), merge w (snd (chunk_loop url ids tc i acc e)))"
proof (induction url ids tc i acc e rule: chunk_loop.induct)
  case (1 url ids tc i acc e)
  show ?case
  proof (cases "i < tc")
    case False
    then show ?thesis by (simp add: chunk_loop.simps)
  next
    case True
    show ?thesis
    proof (cases "chunk_body url ids tc i acc e")
      case (Inl x)
      with True show ?thesis
        by (simp add: chunk_loop.simps[of url ids tc i])
    next
      case (Inr y)
      obtain fs e' where y: "y = (fs, e')" by (cases y)
      from "1.IH"[OF True Inr[unfolded y] refl] True Inr y show ?thesis
        by (simp add: chunk_loop.simps[of url ids tc i])
    qed
  qed
qed

lemma download_in_chunks_merge [simp]:
  "download_in_chunks url ids tc (merge w e) =
     (fst (download_in_chunks url ids tc e), merge w (snd (download_in_chunks url ids tc e)))"
  by (simp add: download_in_chunks_def split: prod.splits sum.splits)

lemma save_layer_merge [simp]:
  "save_layer c i n g (merge w e) = (fst (save_layer c i n g e), merge w (snd (save_layer c i n g e)))"
  by (simp add: save_layer_def split: sum.splits bool.splits)

lemma execute_download_merge [simp]:
  "execute_download c url i n ids tc (merge w e) =
     (fst (execute_download c url i n ids tc e), merge w (snd (execute_download c url i n ids tc e)))"
  by (simp add: execute_download_def split: prod.splits sum.splits)

lemma ask_by_lines:
  assumes "ask_result p w y"
  shows "ask p w = Some y"
proof -
  from assms obtain k where
    inv: "\<forall>j<k. \<exists>line. stdin w (pos w + j) = Some line \<and> \<not> is_answer line"
    and fin: "(stdin w (pos w + k) = None \<and> y = (Inl EOFError, emit (Prompt p) (prompted p k w)))
       \<or> (\<exists>a. stdin w (pos w + k) = Some a \<and> is_answer a
             \<and> y = (Inr (strip (lower a)), prompted p (Suc k) w))"
    unfolding ask_result_def by blast
  have "ask p w = ask p (prompted p k w)"
    using inv by (rule ask_skip)
  also have "\<dots> = Some y"
    using fin by (auto simp: ask_eof ask_answer prompted_prompted)
  finally show ?thesis .
qed

lemma ask_iff: "ask p w = Some y \<longleftrightarrow> ask_result p w y"
  using ask_SomeD ask_by_lines by blast

lemma prompted_merge [simp]: "prompted p k (merge w e) = merge w (prompted p k e)"
  by (simp add: prompted_def merge_def)

lemma ask_result_merge:
  "ask_result p (merge w e) y \<longleftrightarrow> (\<exists>r e'. y = (r, merge w e') \<and> ask_result p e (r, e'))"
  unfolding ask_result_def by auto

lemma ask_merge [simp]:
  "ask p (merge w e) = map_option (\<lambda>(r, e'). (r, merge w e')) (ask p e)"
proof (cases "ask p e")
  case None
  have "ask p (merge w e) = None"
  proof (rule ccontr)
    assume "ask p (merge w e) \<noteq> None"
    then obtain y where "ask p (merge w e) = Some y" by auto
    then have "ask_result p (merge w e) y" by (simp add: ask_iff)
    then obtain r e' where "ask_result p e (r, e')" by (auto simp: ask_result_merge)
    then have "ask p e = Some (r, e')" by (simp add: ask_iff)
    with None show False by simp
  qed
  with None show ?thesis by simp
next
  case (Some y)
  obtain r e' where y: "y = (r, e')" by (cases y)
  from Some y have "ask_result p e (r, e')" by (simp add: ask_iff)
  then have "ask_result p (merge w e) (r, merge w e')" by (auto simp: ask_result_merge)
  then have "ask p (merge w e) = Some (r, merge w e')" by (simp add: ask_iff)
  with Some y show ?thesis by simp
qed

lemma size_check_merge [simp]:
  "size_check ids err (merge w e) = map_option (\<lambda>(r, e'). (r, merge w e')) (size_check ids err e)"
  by (simp add: size_check_def split: sum.splits option.splits prod.splits)

lemma layer_body_merge [simp]:
  "layer_body c su layer (merge w e) = map_option (\<lambda>(r, e'). (r, merge w e')) (layer_body c su layer e)"
  by (simp add: layer_body_def split: sum.splits option.splits prod.splits)

lemma layers_loop_merge [simp]:
  "layers_loop c su layers (merge w e) = map_option (\<lambda>(r, e'). (r, merge w e')) (layers_loop c su layers e)"
  by (induction layers arbitrary: e) (simp_all split: sum.splits option.splits prod.splits)

lemma scan_service_merge [simp]:
  "scan_service s (merge w e) = map_option (merge w) (scan_service s e)"
  by (simp add: scan_service_def split: sum.splits option.splits prod.splits)

lemma service_body_merge [simp]:
  "service_body service (merge w e) = map_option (\<lambda>(r, e'). (r, merge w e')) (service_body service e)"
  by (simp add: service_body_def split: sum.splits option.splits prod.splits json.splits)

lemma services_loop_merge [simp]:
  "services_loop svcs (merge w e) = map_option (\<lambda>(r, e'). (r, merge w e')) (services_loop svcs e)"
  by (induction svcs arbitrary: e) (simp_all split: sum.splits option.splits prod.splits)

lemma scan_catalog_merge:
  "scan_catalog (merge w e) = map_option (\<lambda>(r, e'). (r, merge w e')) (scan_catalog e)"
  by (simp add: scan_catalog_def split: sum.splits option.splits prod.splits)

section \<open>Repeated runs\<close>

lemma erase_header:
  assumes "server w1 = server w2" "sent w1 = sent w2" "stdin w1 = stdin w2" "pos w1 = pos w2"
    "openable w1 = openable w2"
  shows "erase (emit AutoNote (emit Banner (w1\<lparr>folder_exists := True\<rparr>))) =
         erase (emit AutoNote (emit Banner (w2\<lparr>folder_exists := True\<rparr>)))"
  using assms by (intro world.equality) (simp_all add: erase_def emit_def)

lemma map_add_twice: "(m ++ f) ++ f = m ++ f"
  by (rule ext) (auto simp: map_add_def split: option.splits)

text \<open>
  Claim C9. Two runs that meet the same server (with the same requests behind it), the
  same standard input, the same files that can be opened and a download folder that is
  there or can be made in both, whatever files and console output are there already: when
  one run ends, the other ends in the same way, and every file is the same after both
  runs or was touched by neither. A run started on the files an earlier run has left
  leaves them as they are. The content of a file is the document handed to
  \<^verbatim>\<open>json.dump\<close>, whose text is a function of the document.
\<close>

theorem C9_same_answers_same_files:
  assumes "server w1 = server w2" and "sent w1 = sent w2" and "stdin w1 = stdin w2"
    and "pos w1 = pos w2" and "openable w1 = openable w2"
    and "(folder_exists w1 \<or> mkdir_ok w1) = (folder_exists w2 \<or> mkdir_ok w2)"
    and "main w1 = Some (r, w1')"
  shows "\<exists>w2'. main w2 = Some (r, w2')
     \<and> (\<forall>p. files w1' p = files w2' p \<or> (files w1' p = files w1 p \<and> files w2' p = files w2 p))
     \<and> (files w2 = files w1' \<longrightarrow> files w2' = files w1')"
proof (cases "folder_exists w1 \<or> mkdir_ok w1")
  case False
  with assms(6,7) have "main w2 = Some (r, w2)" "w1' = w1"
    by (auto simp: main_def)
  then show ?thesis by auto
next
  case True
  let ?W1 = "emit AutoNote (emit Banner (w1\<lparr>folder_exists := True\<rparr>))"
  let ?W2 = "emit AutoNote (emit Banner (w2\<lparr>folder_exists := True\<rparr>))"
  have e: "erase ?W1 = erase ?W2"
    using assms(1-5) by (rule erase_header)
  have m1: "main w1 = map_option (\<lambda>(r, e'). (r, merge ?W1 e')) (scan_catalog (erase ?W1))"
    using True scan_catalog_merge[of ?W1 "erase ?W1"] by (auto simp: main_def merge_erase)
  have m2: "main w2 = map_option (\<lambda>(r, e'). (r, merge ?W2 e')) (scan_catalog (erase ?W1))"
    using True assms(6) scan_catalog_merge[of ?W2 "erase ?W2"] by (auto simp: main_def merge_erase e)
  from m1 assms(7) have "\<exists>e'. scan_catalog (erase ?W1) = Some (r, e') \<and> w1' = merge ?W1 e'"
    by (cases "scan_catalog (erase ?W1)") auto
  then obtain e' where s: "scan_catalog (erase ?W1) = Some (r, e')"
    and w1': "w1' = merge ?W1 e'"
    by blast
  have f1: "files w1' = files w1 ++ files e'"
    by (simp add: w1' emit_def)
  have f2: "files (merge ?W2 e') = files w2 ++ files e'"
    by (simp add: emit_def)
  have "\<forall>p. files w1' p = files (merge ?W2 e') p
      \<or> (files w1' p = files w1 p \<and> files (merge ?W2 e') p = files w2 p)"
    unfolding f1 f2 by (auto simp: map_add_def split: option.splits)
  moreover have "files w2 = files w1' \<longrightarrow> files (merge ?W2 e') = files w1'"
    unfolding f2 by (auto simp: f1 map_add_twice)
  moreover have "main w2 = Some (r, merge ?W2 e')"
    by (simp add: m2 s)
  ultimately show ?thesis by blast
qed

text \<open>The scenario, run once in an empty world and once where the folder exists and an old
  file of the same name is there: the second run ends with the file of the first.\<close>

theorem C9_same_answers_same_files_witness:
  "\<exists>w2'. main ((initial_world scenario_server [])
       \<lparr>folder_exists := True, files := [scenario_path \<mapsto> JNull]\<rparr>) = Some (Returned, w2')
     \<and> files w2' scenario_path =
         Some (feature_collection [feature 1, feature 2, feature 3])"
proof -
  let ?w1 = "initial_world scenario_server []"
  let ?w2 = "?w1\<lparr>folder_exists := True, files := [scenario_path \<mapsto> JNull]\<rparr>"
  have run: "map_option (\<lambda>(r, w). (r, files w scenario_path)) (main ?w1) =
      Some (Returned, Some (feature_collection [feature 1, feature 2, feature 3]))"
    by (simp add: run_simps scenario_path_def)
  then obtain w1' where m: "main ?w1 = Some (Returned, w1')"
    and f: "files w1' scenario_path = Some (feature_collection [feature 1, feature 2, feature 3])"
    by auto
  have n: "files ?w1 scenario_path = None"
    by (simp add: initial_world_def)
  have h: "server ?w1 = server ?w2" "sent ?w1 = sent ?w2" "stdin ?w1 = stdin ?w2"
    "pos ?w1 = pos ?w2" "openable ?w1 = openable ?w2"
    "(folder_exists ?w1 \<or> mkdir_ok ?w1) = (folder_exists ?w2 \<or> mkdir_ok ?w2)"
    by (simp_all add: initial_world_def)
  from C9_same_answers_same_files[OF h m]
  obtain w2' where a: "main ?w2 = Some (Returned, w2')"
    and b: "\<forall>p. files w1' p = files w2' p \<or> (files w1' p = files ?w1 p \<and> files w2' p = files ?w2 p)"
    by blast
  from b have "files w1' scenario_path = files w2' scenario_path
      \<or> (files w1' scenario_path = files ?w1 scenario_path
          \<and> files w2' scenario_path = files ?w2 scenario_path)"
    by blast
  with f n have "files w2' scenario_path = Some (feature_collection [feature 1, feature 2, feature 3])"
    by auto
  with a show ?thesis by blast
qed

section \<open>The end of a run\<close>

lemma ask_total:
  assumes "answers_eventually w"
  shows "\<exists>r w'. ask p w = Some (r, w') \<and> stdin w' = stdin w"
proof -
  define Q where "Q i = (case stdin w (pos w + i) of None \<Rightarrow> True | Some line \<Rightarrow> is_answer line)" for i
  define k where "k = (LEAST i. Q i)"
  from assms obtain j where "j \<ge> pos w" "case stdin w j of None \<Rightarrow> True | Some line \<Rightarrow> is_answer line"
    unfolding answers_eventually_def by blast
  then have "Q (j - pos w)" by (simp add: Q_def)
  then have q: "Q k" unfolding k_def by (rule LeastI)
  have nq: "\<not> Q i" if "i < k" for i
    using that unfolding k_def by (rule not_less_Least)
  have inv: "\<forall>i<k. \<exists>line. stdin w (pos w + i) = Some line \<and> \<not> is_answer line"
  proof (intro allI impI)
    fix i assume "i < k"
    then have "\<not> Q i" by (rule nq)
    then show "\<exists>line. stdin w (pos w + i) = Some line \<and> \<not> is_answer line"
      unfolding Q_def by (cases "stdin w (pos w + i)") auto
  qed
  show ?thesis
  proof (cases "stdin w (pos w + k)")
    case None
    have "ask_result p w (Inl EOFError, emit (Prompt p) (prompted p k w))"
      unfolding ask_result_def using inv None by (intro exI[of _ k]) simp
    then have "ask p w = Some (Inl EOFError, emit (Prompt p) (prompted p k w))"
      by (rule ask_by_lines)
    then show ?thesis by (simp add: emit_def)
  next
    case (Some a)
    with q have "is_answer a" by (simp add: Q_def)
    then have "ask_result p w (Inr (strip (lower a)), prompted p (Suc k) w)"
      unfolding ask_result_def using inv Some by (intro exI[of _ k]) simp
    then have "ask p w = Some (Inr (strip (lower a)), prompted p (Suc k) w)"
      by (rule ask_by_lines)
    then show ?thesis by simp
  qed
qed

lemma answers_eventually_stdin:
  "answers_eventually w \<Longrightarrow> stdin w' = stdin w \<Longrightarrow> answers_eventually w'"
  by (simp add: answers_eventually_def)

lemma stdin_emit [simp]: "stdin (emit ev w) = stdin w"
  by (simp add: emit_def)

lemma stdin_requests_get [simp]: "stdin (snd (requests_get rq w)) = stdin w"
  by (simp add: requests_get_def)

lemma stdin_get_layer_ids [simp]: "stdin (snd (get_layer_ids url w)) = stdin w"
  by (simp add: get_layer_ids_def split: prod.splits) (simp add: requests_get_def)

lemma stdin_simple_download [simp]: "stdin (snd (simple_download url w)) = stdin w"
  by (simp add: simple_download_def requests_get_def emit_def split: http_result.splits)

lemma stdin_chunk_body: "chunk_body url ids tc i acc w = Inr (fs, w') \<Longrightarrow> stdin w' = stdin w"
  by (auto simp: chunk_body_def requests_get_def emit_def split: sum.splits option.splits)

lemma stdin_chunk_loop [simp]: "stdin (snd (chunk_loop url ids tc i acc w)) = stdin w"
proof (induction url ids tc i acc w rule: chunk_loop.induct)
  case (1 url ids tc i acc w)
  show ?case
  proof (cases "i < tc")
    case False
    then show ?thesis by (simp add: chunk_loop.simps)
  next
    case True
    show ?thesis
    proof (cases "chunk_body url ids tc i acc w")
      case (Inl e)
      with True show ?thesis by (simp add: chunk_loop.simps[of url ids tc i])
    next
      case (Inr y)
      obtain fs w' where y: "y = (fs, w')" by (cases y)
      from "1.IH"[OF True Inr[unfolded y] refl] stdin_chunk_body[OF Inr[unfolded y]] True Inr y
      show ?thesis by (simp add: chunk_loop.simps[of url ids tc i])
    qed
  qed
qed

lemma stdin_download_in_chunks [simp]: "stdin (snd (download_in_chunks url ids tc w)) = stdin w"
proof -
  obtain r w' where c: "chunk_loop url ids tc 0 [] (emit (Downloading tc) w) = (r, w')"
    by (cases "chunk_loop url ids tc 0 [] (emit (Downloading tc) w)")
  have "stdin (snd (chunk_loop url ids tc 0 [] (emit (Downloading tc) w))) = stdin w"
    by simp
  with c have "stdin w' = stdin w" by simp
  then show ?thesis
    by (cases r) (simp_all add: download_in_chunks_def c)
qed

lemma stdin_save_layer [simp]: "stdin (snd (save_layer c i n g w)) = stdin w"
  by (simp add: save_layer_def emit_def split: sum.splits bool.splits)

lemma stdin_execute_download [simp]: "stdin (snd (execute_download c url i n ids tc w)) = stdin w"
proof -
  let ?d = "if truthy ids then download_in_chunks url ids tc w else simple_download url w"
  obtain r w' where d: "?d = (r, w')" by (cases ?d)
  have "stdin (snd ?d) = stdin w" by simp
  with d have s: "stdin w' = stdin w" by simp
  show ?thesis
  proof (cases r)
    case (Inl e)
    with d s show ?thesis by (simp add: execute_download_def)
  next
    case (Inr g)
    have "stdin (snd (save_layer c i n g w')) = stdin w'" by simp
    with Inr d s show ?thesis by (simp add: execute_download_def)
  qed
qed

lemma ask_total_emit:
  assumes "answers_eventually w"
  shows "\<exists>r w'. ask p (emit ev w) = Some (r, w') \<and> stdin w' = stdin w"
proof -
  have "answers_eventually (emit ev w)"
    using assms by (rule answers_eventually_stdin) simp
  from ask_total[OF this, of p] show ?thesis by simp
qed

lemma size_check_total:
  assumes "answers_eventually w"
  shows "\<exists>r w'. size_check ids err w = Some (r, w') \<and> stdin w' = stdin w"
proof (cases "ids = JNull")
  case True
  from ask_total_emit[OF assms, of AskAnyway "SizeUnknown err"] obtain r w'
    where "ask AskAnyway (emit (SizeUnknown err) w) = Some (r, w')" "stdin w' = stdin w"
    by blast
  with True show ?thesis
    by (cases r) (simp_all add: size_check_def)
next
  case False
  show ?thesis
  proof (cases "py_len ids")
    case (Inl e)
    with False show ?thesis by (simp add: size_check_def)
  next
    case (Inr tc)
    show ?thesis
    proof (cases "tc = 0 \<or> \<not> tc > LARGE_LAYER_THRESHOLD")
      case True
      with False Inr show ?thesis by (auto simp: size_check_def)
    next
      case big: False
      from ask_total_emit[OF assms, of AskHuge "LargeLayer tc"] obtain r w'
        where "ask AskHuge (emit (LargeLayer tc) w) = Some (r, w')" "stdin w' = stdin w"
        by blast
      with False Inr big show ?thesis
        by (cases r) (simp_all add: size_check_def)
    qed
  qed
qed

lemma layer_body_total:
  assumes "answers_eventually w"
  shows "\<exists>r w'. layer_body c su layer w = Some (r, w') \<and> stdin w' = stdin w"
proof (cases "py_getitem layer ''name''")
  case (Inl e)
  then show ?thesis by (simp add: layer_body_def)
next
  case name: (Inr l_name)
  show ?thesis
  proof (cases "py_getitem layer ''id''")
    case (Inl e)
    with name show ?thesis by (simp add: layer_body_def)
  next
    case lid: (Inr l_id)
    let ?url = "su @ ''/'' @ py_str l_id"
    obtain ids err w1 where g: "get_layer_ids ?url (emit (Checking c l_name) w) = ((ids, err), w1)"
      by (metis surj_pair)
    have "stdin (snd (get_layer_ids ?url (emit (Checking c l_name) w))) = stdin w"
      by simp
    with g have s1: "stdin w1 = stdin w" by simp
    with assms have "answers_eventually w1" by (rule answers_eventually_stdin)
    from size_check_total[OF this, of ids err] obtain r2 w2
      where sc: "size_check ids err w1 = Some (r2, w2)" and s2: "stdin w2 = stdin w1"
      by blast
    show ?thesis
    proof (cases r2)
      case (Inl e)
      with name lid g sc s1 s2 show ?thesis by (simp add: layer_body_def)
    next
      case (Inr d)
      obtain should_download tc where d: "d = (should_download, tc)" by (cases d)
      obtain r3 w3 where x: "execute_download c ?url l_id l_name ids tc w2 = (r3, w3)"
        by (metis surj_pair)
      have "stdin (snd (execute_download c ?url l_id l_name ids tc w2)) = stdin w2"
        by simp
      with x have "stdin w3 = stdin w2" by simp
      with name lid g sc s1 s2 Inr d x show ?thesis
        by (simp add: layer_body_def)
    qed
  qed
qed

lemma layers_loop_total:
  assumes "answers_eventually w"
  shows "\<exists>r w'. layers_loop c su layers w = Some (r, w') \<and> stdin w' = stdin w"
  using assms
proof (induction layers arbitrary: w)
  case Nil
  then show ?case by simp
next
  case (Cons layer layers)
  from layer_body_total[OF Cons.prems, of c su layer] obtain r w1
    where b: "layer_body c su layer w = Some (r, w1)" and s: "stdin w1 = stdin w"
    by blast
  show ?case
  proof (cases r)
    case (Inl e)
    with b s show ?thesis by simp
  next
    case (Inr u)
    from Cons.prems s have "answers_eventually w1" by (rule answers_eventually_stdin)
    from Cons.IH[OF this] obtain r' w' where "layers_loop c su layers w1 = Some (r', w')"
      and "stdin w' = stdin w1"
      by blast
    with Inr b s show ?thesis by simp
  qed
qed

lemma scan_service_total:
  assumes "answers_eventually w"
  shows "\<exists>w'. scan_service s_name w = Some w' \<and> stdin w' = stdin w"
proof -
  let ?rq = "(service_url_of s_name, [(''f'', ''json'')])"
  obtain r w1 where g: "requests_get ?rq w = (r, w1)" by (metis surj_pair)
  have "stdin (snd (requests_get ?rq w)) = stdin w" by simp
  with g have s1: "stdin w1 = stdin w" by simp
  show ?thesis
  proof (cases "layer_list r")
    case (Inl e)
    with g s1 show ?thesis by (simp add: scan_service_def)
  next
    case (Inr ls)
    show ?thesis
    proof (cases ls)
      case None
      with Inr g s1 show ?thesis by (simp add: scan_service_def)
    next
      case (Some layers)
      from assms s1 have "answers_eventually w1" by (rule answers_eventually_stdin)
      from layers_loop_total[OF this, of "str_replace ''Hosted/'' [] s_name" "service_url_of s_name" layers]
      obtain r2 w2 where "layers_loop (str_replace ''Hosted/'' [] s_name) (service_url_of s_name) layers w1
          = Some (r2, w2)" and "stdin w2 = stdin w1"
        by blast
      with Inr Some g s1 show ?thesis
        by (cases r2) (simp_all add: scan_service_def)
    qed
  qed
qed

lemma service_body_total:
  assumes "answers_eventually w" and "service_entry s"
  shows "\<exists>w'. service_body s w = Some (Inr (), w') \<and> stdin w' = stdin w"
proof -
  from assms(2) obtain s_name s_type where
    n: "py_getitem s ''name'' = Inr (JStr s_name)" and t: "py_getitem s ''type'' = Inr s_type"
    unfolding service_entry_def by blast
  from scan_service_total[OF assms(1), of s_name] obtain w' where
    "scan_service s_name w = Some w'" "stdin w' = stdin w"
    by blast
  with n t show ?thesis by (simp add: service_body_def)
qed

lemma services_loop_total:
  assumes "answers_eventually w" and "\<forall>s\<in>set svcs. service_entry s"
  shows "\<exists>w'. services_loop svcs w = Some (Inr (), w')"
  using assms
proof (induction svcs arbitrary: w)
  case Nil
  then show ?case by simp
next
  case (Cons s svcs)
  from Cons.prems have "service_entry s" by simp
  from service_body_total[OF Cons.prems(1) this] obtain w1
    where b: "service_body s w = Some (Inr (), w1)" and s: "stdin w1 = stdin w"
    by blast
  from Cons.prems(1) s have "answers_eventually w1" by (rule answers_eventually_stdin)
  moreover from Cons.prems have "\<forall>s\<in>set svcs. service_entry s" by simp
  ultimately obtain w' where "services_loop svcs w1 = Some (Inr (), w')"
    using Cons.IH by blast
  with b show ?case by simp
qed

text \<open>
  Claim C5, as the code has it. With the download folder there or made: a run whose
  catalog request raises, or whose answer does not decode to an object, prints the
  connection error after the two header lines and returns, without the completion
  message; a run whose catalog holds a list of services, each an object with a string
  name and a type, on an input that lets every prompt end, returns with the completion
  message as its last line.
\<close>

theorem C5_completion_message:
  assumes "folder_exists w \<or> mkdir_ok w"
  shows "(catalog_services (server w (sent w @ [catalog_request])) = Inl e \<longrightarrow>
          (\<exists>w'. main w = Some (Returned, w')
             \<and> out w' = out w @ [Banner, AutoNote, ConnectFailed e]))
     \<and> (catalog_services (server w (sent w @ [catalog_request])) = Inr (JArr svcs)
          \<and> (\<forall>s\<in>set svcs. service_entry s) \<and> answers_eventually w \<longrightarrow>
          (\<exists>w'. main w = Some (Returned, w') \<and> last (out w') = AllDone))"
proof -
  let ?w0 = "emit AutoNote (emit Banner (w\<lparr>folder_exists := True\<rparr>))"
  have m: "main w = scan_catalog ?w0"
    using assms by (auto simp: main_def)
  have r: "fst (requests_get catalog_request ?w0) = server w (sent w @ [catalog_request])"
    by (simp add: requests_get_def emit_def)
  have failed: "\<exists>w'. main w = Some (Returned, w') \<and> out w' = out w @ [Banner, AutoNote, ConnectFailed e]"
    if "catalog_services (server w (sent w @ [catalog_request])) = Inl e"
    using that by (simp add: m scan_catalog_def requests_get_def emit_def)
  have finished: "\<exists>w'. main w = Some (Returned, w') \<and> last (out w') = AllDone"
    if c: "catalog_services (server w (sent w @ [catalog_request])) = Inr (JArr svcs)"
      and wf: "\<forall>s\<in>set svcs. service_entry s" and ae: "answers_eventually w"
  proof -
    obtain r0 w1 where g: "requests_get catalog_request ?w0 = (r0, w1)"
      by (metis surj_pair)
    from g r have r0: "r0 = server w (sent w @ [catalog_request])" by simp
    from g have "stdin w1 = stdin w"
      by (auto simp: requests_get_def emit_def)
    with ae have "answers_eventually w1" by (rule answers_eventually_stdin)
    from services_loop_total[OF this wf] obtain w2 where
      l: "services_loop svcs w1 = Some (Inr (), w2)"
      by blast
    have "scan_catalog ?w0 = Some (Returned, emit AllDone w2)"
      using c l by (simp add: scan_catalog_def g r0 py_iter_def)
    then show ?thesis by (simp add: m emit_def)
  qed
  from failed finished show ?thesis by blast
qed

text \<open>Claim C5 as stated fails where the catalog request raises: the run returns after
  the connection error, and \<^verbatim>\<open>All done!\<close> is not printed.\<close>

theorem C5_catalog_failure_counterexample:
  "map_option (\<lambda>(r, w). (r, out w, AllDone \<in> set (out w)))
     (main (initial_world (\<lambda>h. Raises ConnectionError) [])) =
   Some (Returned, [Banner, AutoNote, ConnectFailed ConnectionError], False)"
  by (simp add: main_def scan_catalog_def requests_get_def emit_def catalog_services_def
      initial_world_def)

text \<open>Both parts at work: the server whose requests raise, and the scenario.\<close>

theorem C5_completion_message_witness:
  "(\<exists>w'. main (initial_world (\<lambda>h. Raises ConnectionError) []) = Some (Returned, w')
      \<and> out w' = [Banner, AutoNote, ConnectFailed ConnectionError])
   \<and> (\<exists>w'. main (initial_world scenario_server []) = Some (Returned, w') \<and> last (out w') = AllDone)"
proof -
  let ?wf = "initial_world (\<lambda>h. Raises ConnectionError) []"
  let ?ws = "initial_world scenario_server []"
  let ?svc = "JObj [(''name'', JStr ''Hosted/Gaza_Checkpoints''), (''type'', JStr ''FeatureServer'')]"
  have f1: "folder_exists ?wf \<or> mkdir_ok ?wf" and f2: "folder_exists ?ws \<or> mkdir_ok ?ws"
    by (simp_all add: initial_world_def)
  have c1: "catalog_services (server ?wf (sent ?wf @ [catalog_request])) = Inl ConnectionError"
    by (simp add: catalog_services_def initial_world_def)
  have c2: "catalog_services (server ?ws (sent ?ws @ [catalog_request])) = Inr (JArr [?svc])"
    by (simp add: catalog_services_def initial_world_def scenario_server_def one_layer_server_def
        catalog_request_def resp_json_def dict_get_def)
  have e: "\<forall>s\<in>set [?svc]. service_entry s"
    by (simp add: service_entry_def py_getitem_def)
  have a: "answers_eventually ?ws"
    by (auto simp: answers_eventually_def initial_world_def)
  from C5_completion_message[OF f1, of ConnectionError] c1
  have "\<exists>w'. main ?wf = Some (Returned, w') \<and> out w' = out ?wf @ [Banner, AutoNote, ConnectFailed ConnectionError]"
    by blast
  then have one: "\<exists>w'. main ?wf = Some (Returned, w') \<and> out w' = [Banner, AutoNote, ConnectFailed ConnectionError]"
    by (simp add: initial_world_def)
  from C5_completion_message[OF f2, of _ "[?svc]"] c2 e a
  have two: "\<exists>w'. main ?ws = Some (Returned, w') \<and> last (out w') = AllDone"
    by blast
  from one two show ?thesis by blast
qed

section \<open>The filters on the services\<close>

lemma is_substring_iff: "is_substring xs ys \<longleftrightarrow> (\<exists>pre post. ys = pre @ xs @ post)"
proof (induction ys)
  case Nil
  then show ?case by auto
next
  case (Cons c cs)
  have "take (length xs) (c # cs) = xs \<longleftrightarrow> (\<exists>post. c # cs = xs @ post)"
    by (metis append_eq_conv_conj append_take_drop_id)
  moreover have "(\<exists>pre post. c # cs = pre @ xs @ post) \<longleftrightarrow>
      (\<exists>post. c # cs = xs @ post) \<or> (\<exists>pre post. cs = pre @ xs @ post)"
  proof
    assume "\<exists>pre post. c # cs = pre @ xs @ post"
    then obtain pre post where p: "c # cs = pre @ xs @ post" by blast
    show "(\<exists>post. c # cs = xs @ post) \<or> (\<exists>pre post. cs = pre @ xs @ post)"
    proof (cases pre)
      case Nil
      with p show ?thesis by auto
    next
      case (Cons a pre')
      with p have "cs = pre' @ xs @ post" by simp
      then show ?thesis by blast
    qed
  next
    assume "(\<exists>post. c # cs = xs @ post) \<or> (\<exists>pre post. cs = pre @ xs @ post)"
    then show "\<exists>pre post. c # cs = pre @ xs @ post"
    proof
      assume "\<exists>post. c # cs = xs @ post"
      then obtain post where "c # cs = [] @ xs @ post" by auto
      then show ?thesis by blast
    next
      assume "\<exists>pre post. cs = pre @ xs @ post"
      then obtain pre post where "c # cs = (c # pre) @ xs @ post" by auto
      then show ?thesis by blast
    qed
  qed
  ultimately show ?case using Cons.IH by simp
qed

lemma map_eq_iff_list_all2: "map f xs = map f ys \<longleftrightarrow> list_all2 (\<lambda>a b. f a = f b) xs ys"
  by (simp add: list.rel_map flip: list.rel_eq)

lemma substring_lower_iff:
  "is_substring (lower k) (lower s) \<longleftrightarrow> occurs_ignoring_case k s"
proof
  assume "is_substring (lower k) (lower s)"
  then obtain pre' post' where "map char_lower s = pre' @ map char_lower k @ post'"
    by (auto simp: is_substring_iff lower_def)
  then obtain pre rest where s: "s = pre @ rest" and "map char_lower rest = map char_lower k @ post'"
    by (metis map_eq_append_conv)
  then obtain mid post where "rest = mid @ post" and "map char_lower mid = map char_lower k"
    by (metis map_eq_append_conv)
  with s show "occurs_ignoring_case k s"
    unfolding occurs_ignoring_case_def by (auto simp: map_eq_iff_list_all2)
next
  assume "occurs_ignoring_case k s"
  then obtain pre mid post where "s = pre @ mid @ post" "map char_lower mid = map char_lower k"
    unfolding occurs_ignoring_case_def by (auto simp: map_eq_iff_list_all2)
  then have "lower s = lower pre @ lower k @ lower post"
    by (simp add: lower_def)
  then show "is_substring (lower k) (lower s)"
    unfolding is_substring_iff by blast
qed

lemma keyword_match_iff: "keyword_match s \<longleftrightarrow> (\<exists>k\<in>set KEYWORDS. occurs_ignoring_case k s)"
  by (simp add: keyword_match_def list_ex_iff substring_lower_iff)

lemma service_body_entry:
  "service_body (catalog_entry n t) w =
     (if (\<exists>k\<in>set KEYWORDS. occurs_ignoring_case k n) \<and> t = ''FeatureServer''
      then (case scan_service n w of None \<Rightarrow> None | Some w' \<Rightarrow> Some (Inr (), w'))
      else Some (Inr (), w))"
  by (simp add: service_body_def catalog_entry_def py_getitem_def keyword_match_iff)

lemma services_loop_wanted:
  "services_loop (map (case_prod catalog_entry) nts) w =
   services_loop (map (case_prod catalog_entry) (filter wanted nts)) w"
proof (induction nts arbitrary: w)
  case Nil
  then show ?case by simp
next
  case (Cons nt nts)
  obtain n t where nt: "nt = (n, t)" by (cases nt)
  show ?case
  proof (cases "wanted nt")
    case True
    with Cons.IH nt show ?thesis
      by (simp split: option.splits sum.splits prod.splits)
  next
    case False
    with nt have "service_body (catalog_entry n t) w = Some (Inr (), w)"
      by (auto simp: service_body_entry wanted_def)
    with False Cons.IH nt show ?thesis by simp
  qed
qed

text \<open>
  Claim C8. On an entry with a string name and a type the two filters are as the claim has
  them: the entry goes to the scan of its layers exactly when a keyword occurs in the name
  without regard to case and the type is \<^verbatim>\<open>FeatureServer\<close>, and otherwise the round
  leaves the world as it is; so the loop over such entries does what it does on the
  entries that pass. The name and the type are read before the filters, outside every
  \<^verbatim>\<open>try\<close>: an entry without a type ends the loop with a KeyError, whatever its name
  and whatever follows it. On the catalog of an entry without type and the service of the
  scenario, the run ends with that KeyError after the catalog request: the service, which
  passes both filters, is never looked at. With a type on every entry, of a map server
  with a keyword, a feature server without one and a feature server with \<^verbatim>\<open>GAZA\<close> in
  its name, only the last is scanned. Inside the \<^verbatim>\<open>try\<close> of a service the same
  KeyError, of a layer without name, is caught and reported, and the run goes on.
\<close>

theorem C8_entry_without_type_ends_run:
  "service_body (catalog_entry n t) w =
     (if (\<exists>k\<in>set KEYWORDS. occurs_ignoring_case k n) \<and> t = ''FeatureServer''
      then (case scan_service n w of None \<Rightarrow> None | Some w' \<Rightarrow> Some (Inr (), w'))
      else Some (Inr (), w))
   \<and> services_loop (map (case_prod catalog_entry) nts) w =
       services_loop (map (case_prod catalog_entry) (filter wanted nts)) w
   \<and> services_loop (JObj [(''name'', JStr n)] # rest) w = Some (Inl KeyError, w)
   \<and> map_option (\<lambda>(r, w). (r, sent w, out w))
       (main (initial_world
          (catalog_server [JObj [(''name'', JStr ''Hosted/Weather'')],
                           catalog_entry ''Hosted/Gaza_Checkpoints'' ''FeatureServer'']) [])) =
     Some (Uncaught KeyError, [catalog_request], [Banner, AutoNote])
   \<and> map_option (\<lambda>(r, w). (r, sent w, out w))
       (main (initial_world
          (catalog_server [catalog_entry ''Hosted/Gaza_Checkpoints'' ''MapServer'',
                           catalog_entry ''Hosted/Weather'' ''FeatureServer'',
                           catalog_entry ''Hosted/GAZA_checkpoints'' ''FeatureServer'']) [])) =
     Some (Returned,
       [catalog_request,
        (service_url_of ''Hosted/GAZA_checkpoints'', [(''f'', ''json'')]),
        id_request (service_url_of ''Hosted/GAZA_checkpoints'' @ ''/0''),
        chunk_request (service_url_of ''Hosted/GAZA_checkpoints'' @ ''/0'') scenario_ids],
       [Banner, AutoNote, Checking ''GAZA_checkpoints'' (JStr ''Checkpoints''), SizeOk 3,
        Downloading 3, Progress 3 3, Newline,
        Saved ''downloads_qgis_ready/GAZA_checkpoints___L0_Checkpoints.geojson'', AllDone])
   \<and> map_option (\<lambda>(r, w). (r, out w)) (main (initial_world nameless_layer_server [])) =
     Some (Returned, [Banner, AutoNote, ScanError ''Hosted/Gaza_Checkpoints'' KeyError, AllDone])"
proof -
  have missing: "services_loop (JObj [(''name'', JStr n)] # rest) w = Some (Inl KeyError, w)"
    by (simp add: service_body_def py_getitem_def)
  have failing: "map_option (\<lambda>(r, w). (r, sent w, out w))
       (main (initial_world
          (catalog_server [JObj [(''name'', JStr ''Hosted/Weather'')],
                           catalog_entry ''Hosted/Gaza_Checkpoints'' ''FeatureServer'']) [])) =
     Some (Uncaught KeyError, [catalog_request], [Banner, AutoNote])"
    by (simp add: run_simps catalog_server_def catalog_entry_def)
  have filtered: "map_option (\<lambda>(r, w). (r, sent w, out w))
       (main (initial_world
          (catalog_server [catalog_entry ''Hosted/Gaza_Checkpoints'' ''MapServer'',
                           catalog_entry ''Hosted/Weather'' ''FeatureServer'',
                           catalog_entry ''Hosted/GAZA_checkpoints'' ''FeatureServer'']) [])) =
     Some (Returned,
       [catalog_request,
        (service_url_of ''Hosted/GAZA_checkpoints'', [(''f'', ''json'')]),
        id_request (service_url_of ''Hosted/GAZA_checkpoints'' @ ''/0''),
        chunk_request (service_url_of ''Hosted/GAZA_checkpoints'' @ ''/0'') scenario_ids],
       [Banner, AutoNote, Checking ''GAZA_checkpoints'' (JStr ''Checkpoints''), SizeOk 3,
        Downloading 3, Progress 3 3, Newline,
        Saved ''downloads_qgis_ready/GAZA_checkpoints___L0_Checkpoints.geojson'', AllDone])"
    by (simp add: run_simps catalog_server_def catalog_entry_def)
  have caught: "map_option (\<lambda>(r, w). (r, out w)) (main (initial_world nameless_layer_server [])) =
     Some (Returned, [Banner, AutoNote, ScanError ''Hosted/Gaza_Checkpoints'' KeyError, AllDone])"
    by (simp add: run_simps nameless_layer_server_def catalog_entry_def)
  show ?thesis
    by (intro conjI) (rule service_body_entry services_loop_wanted missing failing filtered caught)+
qed

end
